theory Spec2Isabelle
  imports Complex_Main "HOL-Library.AList" "HOL-Library.Log_Nat"
begin

section \<open>JavaScript numbers\<close>

text \<open>
  Every number of the program is an IEEE 754 double. A value is a finite double, given
  by its exact rational value, one of the two infinities, or NaN. The two zeros are one
  value here: the function never divides by a number that can be zero (line 68 divides by
  a positive count) and every other operation it uses gives equal results on them.
\<close>

datatype number = Finite rat | PosInfinity | NegInfinity | NaN

text \<open>The integer nearest to a rational, the even one on a tie.\<close>

definition roundHalfEven :: "rat \<Rightarrow> int" where
  "roundHalfEven y =
     (if y - of_int \<lfloor>y\<rfloor> < 1 / 2 then \<lfloor>y\<rfloor>
      else if 1 / 2 < y - of_int \<lfloor>y\<rfloor> then \<lfloor>y\<rfloor> + 1
      else if even \<lfloor>y\<rfloor> then \<lfloor>y\<rfloor> else \<lfloor>y\<rfloor> + 1)"

text \<open>
  The binary exponent \<open>\<lfloor>log\<^sub>2 \<bar>x\<bar>\<rfloor>\<close> of a nonzero rational, from the bit length of an
  integer: of \<open>\<lfloor>\<bar>x\<bar>\<rfloor>\<close> when \<open>\<bar>x\<bar>\<close> is at least 1, and of \<open>\<lceil>1 / \<bar>x\<bar>\<rceil> - 1\<close> below 1.
\<close>

definition exponentOf :: "rat \<Rightarrow> int" where
  "exponentOf x =
     (if 1 \<le> \<bar>x\<bar> then bitlen \<lfloor>\<bar>x\<bar>\<rfloor> - 1 else - bitlen (\<lceil>1 / \<bar>x\<bar>\<rceil> - 1))"

text \<open>
  The spacing of the doubles around \<open>x\<close>: 52 binary places below the exponent, and
  \<open>2\<^sup>-\<^sup>1\<^sup>0\<^sup>7\<^sup>4\<close> throughout the subnormal range.
\<close>

definition quantumOf :: "rat \<Rightarrow> rat" where
  "quantumOf x = power_int 2 (max (exponentOf x) (- 1022) - 52)"

text \<open>
  Rounding of an exact result to the nearest double, ties to even: the nearest multiple
  of the spacing, and an infinity from \<open>2\<^sup>1\<^sup>0\<^sup>2\<^sup>4\<close> on.
\<close>

definition roundToDouble :: "rat \<Rightarrow> number" where
  "roundToDouble x =
     (let y = of_int (roundHalfEven (\<bar>x\<bar> / quantumOf x)) * quantumOf x
      in if 2 ^ 1024 \<le> y then (if x < 0 then NegInfinity else PosInfinity)
         else Finite (sgn x * y))"

text \<open>The finite double a decimal literal or a parsed input denotes.\<close>

definition doubleOf :: "rat \<Rightarrow> rat" where
  "doubleOf x = (case roundToDouble x of Finite y \<Rightarrow> y | _ \<Rightarrow> 0)"

text \<open>\<^verbatim>\<open>a + b\<close>.\<close>

fun jsAdd :: "number \<Rightarrow> number \<Rightarrow> number" where
  "jsAdd (Finite a) (Finite b) = roundToDouble (a + b)"
| "jsAdd NaN _ = NaN"
| "jsAdd _ NaN = NaN"
| "jsAdd PosInfinity NegInfinity = NaN"
| "jsAdd NegInfinity PosInfinity = NaN"
| "jsAdd PosInfinity _ = PosInfinity"
| "jsAdd _ PosInfinity = PosInfinity"
| "jsAdd NegInfinity _ = NegInfinity"
| "jsAdd _ NegInfinity = NegInfinity"

text \<open>\<^verbatim>\<open>a * b\<close>.\<close>

fun jsMul :: "number \<Rightarrow> number \<Rightarrow> number" where
  "jsMul (Finite a) (Finite b) = roundToDouble (a * b)"
| "jsMul NaN _ = NaN"
| "jsMul _ NaN = NaN"
| "jsMul (Finite a) PosInfinity =
     (if a = 0 then NaN else if 0 < a then PosInfinity else NegInfinity)"
| "jsMul (Finite a) NegInfinity =
     (if a = 0 then NaN else if 0 < a then NegInfinity else PosInfinity)"
| "jsMul PosInfinity (Finite a) =
     (if a = 0 then NaN else if 0 < a then PosInfinity else NegInfinity)"
| "jsMul NegInfinity (Finite a) =
     (if a = 0 then NaN else if 0 < a then NegInfinity else PosInfinity)"
| "jsMul PosInfinity PosInfinity = PosInfinity"
| "jsMul PosInfinity NegInfinity = NegInfinity"
| "jsMul NegInfinity PosInfinity = NegInfinity"
| "jsMul NegInfinity NegInfinity = PosInfinity"

text \<open>\<^verbatim>\<open>a / n\<close> for a count \<open>n\<close>, which line 68 has found positive.\<close>

fun divideByCount :: "number \<Rightarrow> nat \<Rightarrow> number" where
  "divideByCount (Finite a) n = roundToDouble (a / of_nat n)"
| "divideByCount PosInfinity n = PosInfinity"
| "divideByCount NegInfinity n = NegInfinity"
| "divideByCount NaN n = NaN"

text \<open>\<^verbatim>\<open>Math.min(a, b)\<close>.\<close>

fun jsMin :: "number \<Rightarrow> number \<Rightarrow> number" where
  "jsMin (Finite a) (Finite b) = Finite (min a b)"
| "jsMin NaN _ = NaN"
| "jsMin _ NaN = NaN"
| "jsMin NegInfinity _ = NegInfinity"
| "jsMin _ NegInfinity = NegInfinity"
| "jsMin PosInfinity b = b"
| "jsMin a PosInfinity = a"

text \<open>\<^verbatim>\<open>a < b\<close> and \<^verbatim>\<open>a <= b\<close>: false whenever an operand is NaN.\<close>

fun jsLess :: "number \<Rightarrow> number \<Rightarrow> bool" where
  "jsLess (Finite a) (Finite b) = (a < b)"
| "jsLess NaN _ = False"
| "jsLess _ NaN = False"
| "jsLess _ NegInfinity = False"
| "jsLess NegInfinity _ = True"
| "jsLess PosInfinity _ = False"
| "jsLess _ PosInfinity = True"

fun jsLessEq :: "number \<Rightarrow> number \<Rightarrow> bool" where
  "jsLessEq (Finite a) (Finite b) = (a \<le> b)"
| "jsLessEq NaN _ = False"
| "jsLessEq _ NaN = False"
| "jsLessEq NegInfinity _ = True"
| "jsLessEq _ NegInfinity = False"
| "jsLessEq _ PosInfinity = True"
| "jsLessEq PosInfinity _ = False"

text \<open>
  \<^verbatim>\<open>Math.round(a)\<close>: \<open>\<lfloor>x + 1/2\<rfloor>\<close> on a finite double, ties towards plus infinity, which is
  \<^const>\<open>round\<close>; the result is a double again. Infinities and NaN are returned as they are.
\<close>

fun jsRound :: "number \<Rightarrow> number" where
  "jsRound (Finite a) = Finite (of_int (round a))"
| "jsRound PosInfinity = PosInfinity"
| "jsRound NegInfinity = NegInfinity"
| "jsRound NaN = NaN"

text \<open>
  \<^verbatim>\<open>a.toFixed(2)\<close> on a finite double: the sign, then the integer \<open>n\<close> nearest to
  \<open>\<bar>x\<bar> * 100\<close> (the larger one on a tie) written with at least three digits and a point
  before the last two. From \<open>10\<^sup>2\<^sup>1\<close> on \<^verbatim>\<open>toFixed\<close> returns the exponent notation of
  the number instead, whose digits are not modelled: the result is then \<open>Exponent x\<close>.
\<close>

datatype numberText = Digits string | Exponent rat

fun decimal :: "nat \<Rightarrow> string" where
  "decimal n =
     (if n < 10 then [''0123456789'' ! n]
      else decimal (n div 10) @ [''0123456789'' ! (n mod 10)])"

fun toFixed2 :: "number \<Rightarrow> numberText" where
  "toFixed2 (Finite x) =
     (if \<bar>x\<bar> \<ge> 10 ^ 21 then Exponent x
      else Digits ((if x < 0 then ''-'' else '''')
                   @ decimal (nat (round (\<bar>x\<bar> * 100)) div 100) @ ''.''
                   @ decimal (nat (round (\<bar>x\<bar> * 100)) mod 100 div 10)
                   @ decimal (nat (round (\<bar>x\<bar> * 100)) mod 10)))"
| "toFixed2 PosInfinity = Digits ''Infinity''"
| "toFixed2 NegInfinity = Digits ''-Infinity''"
| "toFixed2 NaN = Digits ''NaN''"

section \<open>The payment calculator of src/App.jsx\<close>

text \<open>
  \<^verbatim>\<open>calculatePayment(tasks, baseRatePerMinute)\<close> (App.jsx, lines 29 to 128) is embedded
  as a function from a list of task records and a base rate to either an error or the
  returned object.

  Inputs. The task form stores what \<^verbatim>\<open>parseFloat\<close> returns, so a numeric field holds a
  double. A field is given by the exact rational value of a finite double (the decimal
  1.7 is the double \<open>doubleOf (17 / 10)\<close>), or it is absent, \<open>None\<close>. The value NaN fails
  every test the code makes on a field (\<^verbatim>\<open>!x\<close>, \<^verbatim>\<open>if (x)\<close>, \<^verbatim>\<open>x || d\<close>) exactly as an
  absent field does, so \<open>None\<close> stands for it as well. Infinite inputs are not modelled.
  Everything the function computes from the inputs is a \<open>number\<close>, rounded by each
  operation.

  Counts. A JavaScript array holds fewer than \<open>2\<^sup>3\<^sup>2\<close> elements, so the three counters
  of the function never reach \<open>2\<^sup>5\<^sup>3\<close> and are exact: they are natural numbers here.
\<close>

subsection \<open>Task records and truthiness\<close>

record task =
  taskType :: "string option"
  chapterName :: "string option"
  minutes :: "rat option"
  rating :: "rat option"
  chaptersCompleted :: "rat option"

text \<open>\<^verbatim>\<open>!!x\<close> for a numeric field: absent and \<open>0\<close> are falsy.\<close>

definition truthyNumber :: "rat option \<Rightarrow> bool" where
  "truthyNumber v = (case v of None \<Rightarrow> False | Some x \<Rightarrow> x \<noteq> 0)"

text \<open>\<^verbatim>\<open>!!s\<close> for a string field: absent and the empty string are falsy.\<close>

definition truthyString :: "string option \<Rightarrow> bool" where
  "truthyString v = (case v of None \<Rightarrow> False | Some s \<Rightarrow> s \<noteq> [])"

text \<open>The value read from a field once the guard of line 38 has found it truthy.\<close>

definition numberOf :: "rat option \<Rightarrow> rat" where
  "numberOf v = (case v of None \<Rightarrow> 0 | Some x \<Rightarrow> x)"

definition stringOf :: "string option \<Rightarrow> string" where
  "stringOf v = (case v of None \<Rightarrow> [] | Some s \<Rightarrow> s)"

text \<open>
  Line 38: the records the reducer passes over,
  \<^verbatim>\<open>task.taskType !== 'Lecture' || !task.chapterName || !task.minutes || task.minutes <= 0\<close>.
\<close>

definition skipped :: "task \<Rightarrow> bool" where
  "skipped t =
     (taskType t \<noteq> Some ''Lecture'' \<or> \<not> truthyString (chapterName t)
      \<or> \<not> truthyNumber (minutes t) \<or> numberOf (minutes t) \<le> 0)"

subsection \<open>Grouping by chapter (lines 37 to 50)\<close>

record chapterGroup =
  totalMinutes :: number
  ratings :: "rat list"
  lectureCount :: nat

datatype error = TypeError

text \<open>
  The accumulator \<^verbatim>\<open>acc\<close> starts as the object literal \<^verbatim>\<open>{}\<close>. Its own properties are
  an association list in creation order. It is an ordinary object, so \<^verbatim>\<open>acc[name]\<close>
  also finds what \<^verbatim>\<open>Object.prototype\<close> holds under \<^verbatim>\<open>name\<close>. In a realm whose
  built-in objects are in their initial state these are eleven functions and the
  accessor \<^verbatim>\<open>__proto__\<close>, which yields \<^verbatim>\<open>Object.prototype\<close> itself; all twelve values
  are truthy.
\<close>

type_synonym chapterData = "(string \<times> chapterGroup) list"

definition objectPrototypeFunctions :: "string list" where
  "objectPrototypeFunctions =
     [''constructor'', ''hasOwnProperty'', ''isPrototypeOf'', ''propertyIsEnumerable'',
      ''toLocaleString'', ''toString'', ''valueOf'', ''__defineGetter__'',
      ''__defineSetter__'', ''__lookupGetter__'', ''__lookupSetter__'']"

text \<open>Line 42, the group a new chapter starts with.\<close>

definition newGroup :: chapterGroup where
  "newGroup = \<lparr>totalMinutes = Finite 0, ratings = [], lectureCount = 0\<rparr>"

text \<open>Lines 44 to 48 on a group object.\<close>

definition addToGroup :: "task \<Rightarrow> chapterGroup \<Rightarrow> chapterGroup" where
  "addToGroup t g =
     \<lparr>totalMinutes = jsAdd (totalMinutes g) (Finite (numberOf (minutes t))),
      ratings = (if truthyNumber (rating t) then ratings g @ [numberOf (rating t)]
                 else ratings g),
      lectureCount = lectureCount g + 1\<rparr>"

text \<open>
  One call of the reducer. The state is the own properties of \<^verbatim>\<open>acc\<close> together with a
  flag that records whether \<^verbatim>\<open>Object.prototype\<close> has been given the enumerable
  properties \<^verbatim>\<open>totalMinutes\<close> and \<^verbatim>\<open>lectureCount\<close>.

  \<^item> When \<^verbatim>\<open>acc\<close> has the chapter as an own property, lines 44 to 48 update that group.
  \<^item> When the chapter is \<^verbatim>\<open>__proto__\<close>, \<^verbatim>\<open>acc[task.chapterName]\<close> is
    \<^verbatim>\<open>Object.prototype\<close>: line 41 creates nothing, line 44 stores
    \<^verbatim>\<open>undefined + minutes\<close> in \<^verbatim>\<open>Object.prototype.totalMinutes\<close>, line 46 reads
    \<^verbatim>\<open>ratings\<close> of it, which is \<^verbatim>\<open>undefined\<close>, and \<^verbatim>\<open>undefined.push\<close> throws; with a
    falsy rating line 48 stores \<^verbatim>\<open>Object.prototype.lectureCount\<close> and \<^verbatim>\<open>acc\<close> gains
    no property.
  \<^item> When the chapter names one of the functions of \<^verbatim>\<open>Object.prototype\<close>, the same lines
    run on that function object: line 46 throws when the rating is truthy, and
    otherwise \<^verbatim>\<open>acc\<close> gains no property.
  \<^item> In every other case \<^verbatim>\<open>acc[task.chapterName]\<close> is \<^verbatim>\<open>undefined\<close> (or the NaN stored
    by an earlier \<^verbatim>\<open>__proto__\<close> record), line 42 creates the group and lines 44 to 48
    update it.

  The writes to \<^verbatim>\<open>Object.prototype\<close> and to its functions outlive the call. The model
  describes one call that starts in the initial state, and its value is the result of
  that call alone.
\<close>

definition reducer :: "chapterData \<times> bool \<Rightarrow> task \<Rightarrow> error + chapterData \<times> bool" where
  "reducer s t =
     (let acc = fst s; polluted = snd s; name = stringOf (chapterName t) in
      if skipped t then Inr (acc, polluted)
      else case map_of acc name of
        Some g \<Rightarrow> Inr (AList.update name (addToGroup t g) acc, polluted)
      | None \<Rightarrow>
          if name = ''__proto__'' then
            (if truthyNumber (rating t) then Inl TypeError else Inr (acc, True))
          else if name \<in> set objectPrototypeFunctions then
            (if truthyNumber (rating t) then Inl TypeError else Inr (acc, polluted))
          else Inr (AList.update name (addToGroup t newGroup) acc, polluted))"

text \<open>\<^verbatim>\<open>tasks.reduce(reducer, {})\<close>: a throw in one call ends the whole reduction.\<close>

fun reduce :: "chapterData \<times> bool \<Rightarrow> task list \<Rightarrow> error + chapterData \<times> bool" where
  "reduce s [] = Inr s"
| "reduce s (t # ts) =
     (case reducer s t of Inl e \<Rightarrow> Inl e | Inr s' \<Rightarrow> reduce s' ts)"

subsection \<open>Aggregation over the chapters (lines 53 to 59)\<close>

text \<open>
  \<^verbatim>\<open>for (const chapter in chapterData)\<close> visits the own property names that are array
  indices (canonical decimal numerals below \<open>2\<^sup>3\<^sup>2 - 1\<close>) in ascending numeric order and
  then the other names in creation order. Double addition is not associative, so the
  order is part of the result.
\<close>

definition digitValue :: "char \<Rightarrow> nat" where
  "digitValue c = length (takeWhile (\<lambda>d. d \<noteq> c) ''0123456789'')"

definition parseDecimal :: "string \<Rightarrow> nat" where
  "parseDecimal s = foldl (\<lambda>n c. 10 * n + digitValue c) 0 s"

definition arrayIndex :: "string \<Rightarrow> nat option" where
  "arrayIndex s =
     (if s \<noteq> [] \<and> list_all (\<lambda>c. c \<in> set ''0123456789'') s
         \<and> (s = ''0'' \<or> hd s \<noteq> CHR ''0'') \<and> parseDecimal s < 2 ^ 32 - 1
      then Some (parseDecimal s) else None)"

definition forInKeys :: "string list \<Rightarrow> string list" where
  "forInKeys names =
     sort_key (\<lambda>k. case arrayIndex k of Some i \<Rightarrow> i | None \<Rightarrow> 0)
       (filter (\<lambda>k. arrayIndex k \<noteq> None) names)
     @ filter (\<lambda>k. arrayIndex k = None) names"

text \<open>
  The four variables of lines 31 to 34. The field \<open>lecturesCounted\<close> is the variable
  \<^verbatim>\<open>lecturesCount\<close>; the name \<open>lecturesCount\<close> is kept for the field of the returned
  object.
\<close>

record lectureTotals =
  lectureBillableMinutes :: number
  lecturesCounted :: nat
  lectureRatingSum :: number
  lectureRatingCount :: nat

text \<open>Line 57, \<^verbatim>\<open>data.ratings.reduce((sum, r) => sum + r, 0)\<close>.\<close>

definition ratingsSum :: "rat list \<Rightarrow> number" where
  "ratingsSum rs = foldl (\<lambda>s q. jsAdd s (Finite q)) (Finite 0) rs"

text \<open>The body of the loop, lines 54 to 58, on the group \<^verbatim>\<open>chapterData[chapter]\<close>.\<close>

definition addChapter :: "lectureTotals \<Rightarrow> chapterGroup \<Rightarrow> lectureTotals" where
  "addChapter tot g =
     \<lparr>lectureBillableMinutes =
        jsAdd (lectureBillableMinutes tot) (jsMin (totalMinutes g) (Finite 240)),
      lecturesCounted = lecturesCounted tot + lectureCount g,
      lectureRatingSum = jsAdd (lectureRatingSum tot) (ratingsSum (ratings g)),
      lectureRatingCount = lectureRatingCount tot + length (ratings g)\<rparr>"

text \<open>The loop over the names in their order; an own name always has its group.\<close>

fun forIn :: "chapterData \<Rightarrow> lectureTotals \<Rightarrow> string list \<Rightarrow> lectureTotals" where
  "forIn acc tot [] = tot"
| "forIn acc tot (k # ks) =
     forIn acc (case map_of acc k of Some g \<Rightarrow> addChapter tot g | None \<Rightarrow> tot) ks"

definition zeroTotals :: lectureTotals where
  "zeroTotals = \<lparr>lectureBillableMinutes = Finite 0, lecturesCounted = 0,
                 lectureRatingSum = Finite 0, lectureRatingCount = 0\<rparr>"

text \<open>
  After the own properties the loop visits the enumerable properties that
  \<^verbatim>\<open>chapterData\<close> inherits and does not shadow. After a \<^verbatim>\<open>__proto__\<close> record these are
  \<^verbatim>\<open>totalMinutes\<close> and \<^verbatim>\<open>lectureCount\<close> of \<^verbatim>\<open>Object.prototype\<close>, whose value is NaN:
  \<^verbatim>\<open>data.ratings\<close> is then \<^verbatim>\<open>undefined\<close> and line 57 throws.
\<close>

definition aggregate :: "chapterData \<times> bool \<Rightarrow> error + lectureTotals" where
  "aggregate s =
     (if snd s \<and> \<not> (map_of (fst s) ''totalMinutes'' \<noteq> None
                    \<and> map_of (fst s) ''lectureCount'' \<noteq> None)
      then Inl TypeError
      else Inr (forIn (fst s) zeroTotals (forInKeys (map fst (fst s)))))"

text \<open>Lines 31 to 59 together: the four lecture totals of a task list.\<close>

definition lectureTotalsOf :: "task list \<Rightarrow> error + lectureTotals" where
  "lectureTotalsOf tasks =
     (case reduce ([], False) tasks of Inl e \<Rightarrow> Inl e | Inr s \<Rightarrow> aggregate s)"

subsection \<open>Rate, modifiers and lecture pay (lines 62 to 89)\<close>

text \<open>Line 62, \<^verbatim>\<open>baseRatePerMinute || 10\<close>.\<close>

definition R_minute_of :: "rat option \<Rightarrow> number" where
  "R_minute_of baseRatePerMinute =
     (if truthyNumber baseRatePerMinute then Finite (numberOf baseRatePerMinute)
      else Finite 10)"

text \<open>Line 65, before the rounding of line 125.\<close>

definition basePayLectures_unrounded :: "lectureTotals \<Rightarrow> rat option \<Rightarrow> number" where
  "basePayLectures_unrounded tot baseRatePerMinute =
     jsMul (lectureBillableMinutes tot) (R_minute_of baseRatePerMinute)"

text \<open>Line 68, before the formatting of line 123.\<close>

definition averageRating_unrounded :: "lectureTotals \<Rightarrow> number" where
  "averageRating_unrounded tot =
     (if lectureRatingCount tot > 0
      then divideByCount (lectureRatingSum tot) (lectureRatingCount tot) else Finite 5)"

text \<open>
  Lines 69 to 76. The literals 2.5, 3.5, 0.75 and 1.0 are doubles; 0.6 is the double
  nearest to it.
\<close>

definition M_rate_of :: "number \<Rightarrow> number" where
  "M_rate_of avg =
     (if jsLess avg (Finite (5 / 2)) then roundToDouble (6 / 10)
      else if jsLessEq avg (Finite (7 / 2)) then Finite (75 / 100)
      else Finite 1)"

text \<open>
  Lines 79 to 86. The variable is initialised and the chain of three guarded assignments
  has no final \<^verbatim>\<open>else\<close>: when none of the guards holds, the initial value stays.
  The source initialises it to \<open>1.0\<close>. The literals 1.2 and 0.8 are the doubles nearest
  to them.
\<close>

definition M_freq_chain :: "number \<Rightarrow> nat \<Rightarrow> number \<Rightarrow> number" where
  "M_freq_chain initial n T =
     (if n \<ge> 3 \<and> jsLessEq (Finite 180) T then roundToDouble (12 / 10)
      else if n \<ge> 2 \<and> jsLessEq (Finite 120) T then Finite 1
      else if n < 2 \<or> jsLess T (Finite 120) then roundToDouble (8 / 10)
      else initial)"

definition M_freq_of :: "nat \<Rightarrow> number \<Rightarrow> number" where
  "M_freq_of n T = M_freq_chain (Finite 1) n T"

text \<open>Line 89, before the rounding of line 116: two multiplications, left to right.\<close>

definition P_final_lectures_unrounded :: "lectureTotals \<Rightarrow> rat option \<Rightarrow> number" where
  "P_final_lectures_unrounded tot baseRatePerMinute =
     jsMul (jsMul (basePayLectures_unrounded tot baseRatePerMinute)
              (M_rate_of (averageRating_unrounded tot)))
       (M_freq_of (lecturesCounted tot) (lectureBillableMinutes tot))"

subsection \<open>Other work (lines 95 to 108)\<close>

definition CHAPTER_RATE_const :: number where
  "CHAPTER_RATE_const = Finite 500"

definition nonLectureTasks :: "task list \<Rightarrow> task list" where
  "nonLectureTasks tasks = filter (\<lambda>t. taskType t \<noteq> Some ''Lecture'') tasks"

text \<open>Line 103, \<^verbatim>\<open>task.chaptersCompleted || 0\<close>.\<close>

definition chaptersOf :: "task \<Rightarrow> number" where
  "chaptersOf t =
     (if truthyNumber (chaptersCompleted t) then Finite (numberOf (chaptersCompleted t))
      else Finite 0)"

text \<open>
  The \<^verbatim>\<open>forEach\<close> of lines 102 to 108 with its two accumulators,
  \<^verbatim>\<open>totalChaptersCompleted\<close> and \<^verbatim>\<open>P_final_other\<close>.
\<close>

fun forEach :: "number \<times> number \<Rightarrow> task list \<Rightarrow> number \<times> number" where
  "forEach a [] = a"
| "forEach a (t # ts) =
     forEach (jsAdd (fst a) (chaptersOf t),
              jsAdd (snd a) (jsMul (chaptersOf t) CHAPTER_RATE_const)) ts"

definition totalChaptersCompleted_of :: "task list \<Rightarrow> number" where
  "totalChaptersCompleted_of tasks =
     fst (forEach (Finite 0, Finite 0) (nonLectureTasks tasks))"

definition P_final_other_unrounded :: "task list \<Rightarrow> number" where
  "P_final_other_unrounded tasks =
     snd (forEach (Finite 0, Finite 0) (nonLectureTasks tasks))"

subsection \<open>The returned object (lines 111 to 127)\<close>

text \<open>Line 111, before the rounding of line 115.\<close>

definition P_final_unrounded :: "lectureTotals \<Rightarrow> rat option \<Rightarrow> task list \<Rightarrow> number" where
  "P_final_unrounded tot baseRatePerMinute tasks =
     jsAdd (P_final_lectures_unrounded tot baseRatePerMinute) (P_final_other_unrounded tasks)"

record paymentBreakdown =
  P_final :: number
  P_final_lectures :: number
  P_final_other :: number
  T_billable :: number
  totalChaptersCompleted :: number
  R_minute :: number
  M_rate :: number
  M_freq :: number
  averageRating :: numberText
  lecturesCount :: nat
  basePayLectures :: number
  CHAPTER_RATE :: number

text \<open>The object of the \<^verbatim>\<open>return\<close> statement, lines 114 to 127.\<close>

definition returned :: "lectureTotals \<Rightarrow> rat option \<Rightarrow> task list \<Rightarrow> paymentBreakdown" where
  "returned tot baseRatePerMinute tasks =
     \<lparr>P_final = jsRound (P_final_unrounded tot baseRatePerMinute tasks),
      P_final_lectures = jsRound (P_final_lectures_unrounded tot baseRatePerMinute),
      P_final_other = jsRound (P_final_other_unrounded tasks),
      T_billable = lectureBillableMinutes tot,
      totalChaptersCompleted = totalChaptersCompleted_of tasks,
      R_minute = R_minute_of baseRatePerMinute,
      M_rate = M_rate_of (averageRating_unrounded tot),
      M_freq = M_freq_of (lecturesCounted tot) (lectureBillableMinutes tot),
      averageRating = toFixed2 (averageRating_unrounded tot),
      lecturesCount = lecturesCounted tot,
      basePayLectures = jsRound (basePayLectures_unrounded tot baseRatePerMinute),
      CHAPTER_RATE = CHAPTER_RATE_const\<rparr>"

text \<open>
  The whole function: a throw in the grouping or in the aggregation leaves it, and
  nothing after line 59 can throw.
\<close>

definition calculatePayment :: "task list \<Rightarrow> rat option \<Rightarrow> error + paymentBreakdown" where
  "calculatePayment tasks baseRatePerMinute =
     (case lectureTotalsOf tasks of
        Inl e \<Rightarrow> Inl e
      | Inr tot \<Rightarrow> Inr (returned tot baseRatePerMinute tasks))"

subsection \<open>Concrete records\<close>

text \<open>A \<^verbatim>\<open>Lecture\<close> record with a chapter, minutes and an optional rating.\<close>

definition lecture :: "string \<Rightarrow> rat \<Rightarrow> rat option \<Rightarrow> task" where
  "lecture c m q = \<lparr>taskType = Some ''Lecture'', chapterName = Some c, minutes = Some m,
                    rating = q, chaptersCompleted = None\<rparr>"

text \<open>A record of another type with its completed units and nothing else.\<close>

definition otherTask :: "string \<Rightarrow> rat \<Rightarrow> task" where
  "otherTask ty c = \<lparr>taskType = Some ty, chapterName = None, minutes = None,
                     rating = None, chaptersCompleted = Some c\<rparr>"

text \<open>The value of a finite number, for arithmetic on returned fields.\<close>

definition valueOf :: "number \<Rightarrow> rat" where
  "valueOf v = (case v of Finite x \<Rightarrow> x | _ \<Rightarrow> 0)"

text \<open>A number that is neither NaN nor negative.\<close>

definition nonNegative :: "number \<Rightarrow> bool" where
  "nonNegative v = (case v of Finite x \<Rightarrow> 0 \<le> x | PosInfinity \<Rightarrow> True | _ \<Rightarrow> False)"

text \<open>
  The distance between the returned \<open>P_final\<close> and the sum of the returned
  \<open>P_final_lectures\<close> and \<open>P_final_other\<close>.
\<close>

definition roundingGap :: "paymentBreakdown \<Rightarrow> rat" where
  "roundingGap r =
     \<bar>valueOf (P_final r) - (valueOf (P_final_lectures r) + valueOf (P_final_other r))\<bar>"

subsection \<open>The grouping in the words of the specification\<close>

text \<open>
  Steps 1 to 3 of the lecture-pay algorithm as the specification words them, for
  comparison with \<open>reduce\<close> and \<open>forIn\<close>. A record is billable when it is a Lecture record
  with positive minutes and a non-empty chapter name; the chapter groups are the billable
  records that share a chapter name, and the chapter names are taken in the order of
  their first record.
\<close>

definition billable :: "task \<Rightarrow> bool" where
  "billable t =
     (taskType t = Some ''Lecture'' \<and> 0 < numberOf (minutes t)
      \<and> stringOf (chapterName t) \<noteq> [])"

definition chapterMembers :: "task list \<Rightarrow> string \<Rightarrow> task list" where
  "chapterMembers tasks c =
     filter (\<lambda>t. billable t \<and> stringOf (chapterName t) = c) tasks"

definition chapterNames :: "task list \<Rightarrow> string list" where
  "chapterNames tasks =
     rev (remdups (rev (map (\<lambda>t. stringOf (chapterName t)) (filter billable tasks))))"

text \<open>The minutes of a chapter group, added in the order of the list.\<close>

definition groupMinutes :: "task list \<Rightarrow> string \<Rightarrow> number" where
  "groupMinutes tasks c =
     foldl (\<lambda>s t. jsAdd s (Finite (numberOf (minutes t)))) (Finite 0) (chapterMembers tasks c)"

text \<open>
  The sum over the chapter groups of the group's minutes capped at 240. The sum is a
  sum of doubles, so the groups are added in the order in which the loop visits them.
\<close>

definition T_billable_spec :: "task list \<Rightarrow> number" where
  "T_billable_spec tasks =
     foldl (\<lambda>s c. jsAdd s (jsMin (groupMinutes tasks c) (Finite 240))) (Finite 0)
       (forInKeys (chapterNames tasks))"

text \<open>The sum over the chapter groups of the group's number of records.\<close>

definition lecturesCount_spec :: "task list \<Rightarrow> nat" where
  "lecturesCount_spec tasks = (\<Sum>c\<leftarrow>chapterNames tasks. length (chapterMembers tasks c))"

text \<open>
  The group object that lines 42 to 48 build for a chapter from its members, in the
  order of the list.
\<close>

definition groupOf :: "task list \<Rightarrow> string \<Rightarrow> chapterGroup" where
  "groupOf tasks c = foldl (\<lambda>g t. addToGroup t g) newGroup (chapterMembers tasks c)"

text \<open>The twelve names that \<^verbatim>\<open>{}\<close> inherits from \<^verbatim>\<open>Object.prototype\<close>.\<close>

definition inheritedNames :: "string list" where
  "inheritedNames = ''__proto__'' # objectPrototypeFunctions"

section \<open>Rounding to a double\<close>

text \<open>
  The exponent is the one of the binade that holds \<open>x\<close>. A finite result is a
  multiple of the spacing within half a spacing of the exact value; below \<open>2\<^sup>5\<^sup>3\<close>
  the spacing is at most 1, and the integers below \<open>2\<^sup>5\<^sup>3\<close> are doubles.
\<close>

lemma exponentOf_bounds:
  assumes "x \<noteq> 0"
  shows "power_int 2 (exponentOf x) \<le> \<bar>x\<bar> \<and> \<bar>x\<bar> < power_int 2 (exponentOf x + 1)"
proof (cases "1 \<le> \<bar>x\<bar>")
  case True
  define m where "m = \<lfloor>\<bar>x\<bar>\<rfloor>"
  have m: "0 < m" using True by (simp add: m_def)
  from bitlen_bounds [OF m]
  have lo: "2 ^ nat (bitlen m - 1) \<le> m" and hi: "m < 2 ^ nat (bitlen m)" by simp_all
  have b: "1 \<le> bitlen m" using m by (simp add: bitlen_ge_iff_power)
  have e: "exponentOf x = bitlen m - 1"
    using True by (simp add: exponentOf_def m_def)
  have "rat_of_int (2 ^ nat (bitlen m - 1)) \<le> of_int m"
    using lo by (simp only: of_int_le_iff)
  also have "\<dots> \<le> \<bar>x\<bar>" by (simp add: m_def)
  finally have 1: "power_int 2 (exponentOf x) \<le> \<bar>x\<bar>"
    using b by (simp add: e power_int_nonneg_exp)
  have "m + 1 \<le> 2 ^ nat (bitlen m)" using hi by simp
  then have "rat_of_int (m + 1) \<le> of_int (2 ^ nat (bitlen m))"
    by (simp only: of_int_le_iff)
  moreover have "\<bar>x\<bar> < of_int m + 1"
    using floor_correct [of "\<bar>x\<bar>"] by (simp add: m_def)
  ultimately have "\<bar>x\<bar> < 2 ^ nat (bitlen m)" by simp
  then have 2: "\<bar>x\<bar> < power_int 2 (exponentOf x + 1)"
    using b by (simp add: e power_int_nonneg_exp)
  from 1 2 show ?thesis ..
next
  case False
  define y where "y = 1 / \<bar>x\<bar>"
  define m where "m = \<lceil>y\<rceil> - 1"
  have x: "0 < \<bar>x\<bar>" "\<bar>x\<bar> < 1" using assms False by simp_all
  then have y: "1 < y" by (simp add: y_def)
  then have m: "0 < m" by (simp add: m_def less_ceiling_iff)
  from bitlen_bounds [OF m]
  have lo: "2 ^ nat (bitlen m - 1) \<le> m" and hi: "m < 2 ^ nat (bitlen m)" by simp_all
  have b: "1 \<le> bitlen m" using m by (simp add: bitlen_ge_iff_power)
  have e: "exponentOf x = - bitlen m"
    using False by (simp add: exponentOf_def m_def y_def)
  have "m + 1 \<le> 2 ^ nat (bitlen m)" using hi by simp
  then have "rat_of_int (m + 1) \<le> of_int (2 ^ nat (bitlen m))"
    by (simp only: of_int_le_iff)
  moreover have "y \<le> of_int (m + 1)"
    using ceiling_correct [of y] by (simp add: m_def)
  ultimately have "y \<le> 2 ^ nat (bitlen m)" by simp
  then have "1 \<le> 2 ^ nat (bitlen m) * \<bar>x\<bar>"
    using x(1) by (simp add: y_def field_simps)
  then have 1: "power_int 2 (exponentOf x) \<le> \<bar>x\<bar>"
    using b by (simp add: e power_int_minus power_int_nonneg_exp field_simps)
  have "(2::rat) ^ nat (bitlen m - 1) \<le> of_int m"
    using lo by (metis of_int_le_iff of_int_numeral of_int_power)
  moreover have "of_int m < y"
    using ceiling_correct [of y] by (simp add: m_def)
  ultimately have "2 ^ nat (bitlen m - 1) < y" by linarith
  then have "2 ^ nat (bitlen m - 1) * \<bar>x\<bar> < 1"
    using x(1) by (simp add: y_def field_simps)
  then have "\<bar>x\<bar> < 1 / 2 ^ nat (bitlen m - 1)"
    by (simp add: field_simps)
  moreover have "exponentOf x + 1 = - (bitlen m - 1)" by (simp add: e)
  then have "power_int (2::rat) (exponentOf x + 1) = 1 / 2 ^ nat (bitlen m - 1)"
    using b by (simp only: power_int_minus_divide) (simp add: power_int_nonneg_exp)
  ultimately have 2: "\<bar>x\<bar> < power_int 2 (exponentOf x + 1)" by simp
  from 1 2 show ?thesis ..
qed

lemma roundHalfEven_error: "\<bar>of_int (roundHalfEven y) - y\<bar> \<le> 1 / 2"
proof -
  have "of_int \<lfloor>y\<rfloor> \<le> y" "y < of_int \<lfloor>y\<rfloor> + 1" by linarith+
  then show ?thesis
    by (auto simp: roundHalfEven_def abs_le_iff)
qed

lemma roundHalfEven_nonneg: "0 \<le> y \<Longrightarrow> 0 \<le> roundHalfEven y"
  by (auto simp: roundHalfEven_def)

lemma roundHalfEven_of_int: "roundHalfEven (of_int n) = n"
  by (simp add: roundHalfEven_def)

lemma quantumOf_pos: "0 < quantumOf x"
  by (simp add: quantumOf_def)

lemma exponentOf_le_52:
  assumes "\<bar>x\<bar> < 2 ^ 53"
  shows "exponentOf x \<le> 52"
proof (cases "1 \<le> \<bar>x\<bar>")
  case True
  have "\<lfloor>\<bar>x\<bar>\<rfloor> < 2 ^ 53"
    using assms by (simp add: floor_less_iff)
  then have "bitlen \<lfloor>\<bar>x\<bar>\<rfloor> \<le> 53"
    by (simp add: bitlen_le_iff_power)
  with True show ?thesis by (simp add: exponentOf_def)
next
  case False
  have "0 \<le> bitlen (\<lceil>1 / \<bar>x\<bar>\<rceil> - 1)" by (rule bitlen_nonneg)
  with False show ?thesis by (simp add: exponentOf_def)
qed

lemma quantumOf_le_1:
  assumes "\<bar>x\<bar> < 2 ^ 53"
  shows "quantumOf x \<le> 1"
proof -
  have "max (exponentOf x) (- 1022) - 52 \<le> 0"
    using exponentOf_le_52 [OF assms] by simp
  then have "power_int (2::rat) (max (exponentOf x) (- 1022) - 52) \<le> power_int 2 0"
    by (intro power_int_increasing) simp_all
  then show ?thesis by (simp add: quantumOf_def)
qed

lemma roundToDouble_nearest:
  assumes "roundToDouble x = Finite y"
  shows "\<bar>y - x\<bar> \<le> quantumOf x / 2 \<and> (\<exists>n. y = of_int n * quantumOf x)"
proof -
  define q where "q = quantumOf x"
  define n where "n = roundHalfEven (\<bar>x\<bar> / q)"
  have q: "0 < q" using quantumOf_pos by (simp add: q_def)
  have y: "y = sgn x * (of_int n * q)"
    using assms by (simp add: roundToDouble_def Let_def n_def q_def split: if_splits)
  have "\<bar>of_int n - \<bar>x\<bar> / q\<bar> \<le> 1 / 2"
    unfolding n_def by (rule roundHalfEven_error)
  then have "\<bar>of_int n - \<bar>x\<bar> / q\<bar> * q \<le> 1 / 2 * q"
    using q by (intro mult_right_mono) simp_all
  moreover have "\<bar>of_int n - \<bar>x\<bar> / q\<bar> * q = \<bar>of_int n * q - \<bar>x\<bar>\<bar>"
  proof -
    have "\<bar>of_int n - \<bar>x\<bar> / q\<bar> * q = \<bar>(of_int n - \<bar>x\<bar> / q) * q\<bar>"
      using q by (simp add: abs_mult)
    also have "(of_int n - \<bar>x\<bar> / q) * q = of_int n * q - \<bar>x\<bar>"
      using q by (simp add: left_diff_distrib)
    finally show ?thesis .
  qed
  ultimately have e: "\<bar>of_int n * q - \<bar>x\<bar>\<bar> \<le> q / 2" by simp
  have "y - x = sgn x * (of_int n * q - \<bar>x\<bar>)"
    by (simp add: y right_diff_distrib sgn_mult_abs)
  then have "\<bar>y - x\<bar> \<le> \<bar>of_int n * q - \<bar>x\<bar>\<bar>"
    by (simp add: abs_mult abs_sgn_eq)
  with e have 1: "\<bar>y - x\<bar> \<le> quantumOf x / 2" by (simp add: q_def)
  have "y = of_int (if x < 0 then - n else if x = 0 then 0 else n) * quantumOf x"
    by (simp add: y q_def sgn_if)
  then have 2: "\<exists>k. y = of_int k * quantumOf x" ..
  from 1 2 show ?thesis ..
qed

lemma roundToDouble_error:
  assumes "\<bar>x\<bar> < 2 ^ 53"
  shows "\<exists>y. roundToDouble x = Finite y \<and> \<bar>y - x\<bar> \<le> 1 / 2"
proof -
  define q where "q = quantumOf x"
  define n where "n = roundHalfEven (\<bar>x\<bar> / q)"
  have q: "0 < q" "q \<le> 1"
    using quantumOf_pos quantumOf_le_1 [OF assms] by (simp_all add: q_def)
  have "\<bar>of_int n - \<bar>x\<bar> / q\<bar> \<le> 1 / 2"
    unfolding n_def by (rule roundHalfEven_error)
  then have "\<bar>of_int n - \<bar>x\<bar> / q\<bar> * q \<le> 1 / 2 * q"
    using q(1) by (intro mult_right_mono) simp_all
  moreover have "\<bar>of_int n - \<bar>x\<bar> / q\<bar> * q = \<bar>of_int n * q - \<bar>x\<bar>\<bar>"
  proof -
    have "\<bar>of_int n - \<bar>x\<bar> / q\<bar> * q = \<bar>(of_int n - \<bar>x\<bar> / q) * q\<bar>"
      using q(1) by (simp add: abs_mult)
    also have "(of_int n - \<bar>x\<bar> / q) * q = of_int n * q - \<bar>x\<bar>"
      using q(1) by (simp add: left_diff_distrib)
    finally show ?thesis .
  qed
  ultimately have e: "\<bar>of_int n * q - \<bar>x\<bar>\<bar> \<le> 1 / 2"
    using q(2) by linarith
  have "of_int n * q < 2 ^ 53 + 1"
    using e assms by linarith
  also have "\<dots> \<le> (2::rat) ^ 1024" by simp
  finally have f: "\<not> (2::rat) ^ 1024 \<le> of_int n * q" by simp
  have r: "roundToDouble x = Finite (sgn x * (of_int n * q))"
    using f by (simp add: roundToDouble_def Let_def n_def q_def)
  have "sgn x * (of_int n * q) - x = sgn x * (of_int n * q - \<bar>x\<bar>)"
    by (simp add: right_diff_distrib sgn_mult_abs)
  then have "\<bar>sgn x * (of_int n * q) - x\<bar> \<le> \<bar>of_int n * q - \<bar>x\<bar>\<bar>"
    by (simp add: abs_mult abs_sgn_eq)
  with e r show ?thesis by auto
qed

lemma roundToDouble_nonNegative: "0 \<le> x \<Longrightarrow> nonNegative (roundToDouble x)"
  by (auto simp: roundToDouble_def Let_def nonNegative_def sgn_if
      intro!: mult_nonneg_nonneg roundHalfEven_nonneg divide_nonneg_pos quantumOf_pos
        less_imp_le [OF quantumOf_pos])


lemma roundToDouble_of_int:
  assumes "\<bar>n\<bar> < 2 ^ 53"
  shows "roundToDouble (of_int n) = Finite (of_int n)"
proof (cases "n = 0")
  case True
  then show ?thesis by (simp add: roundToDouble_def roundHalfEven_def)
next
  case False
  define k where "k = nat (53 - bitlen \<bar>n\<bar>)"
  have a: "1 \<le> \<bar>n\<bar>" using False by simp
  have "bitlen \<bar>n\<bar> \<le> 53"
    using assms by (simp add: bitlen_le_iff_power)
  moreover have "1 \<le> bitlen \<bar>n\<bar>"
    using a by (simp add: bitlen_ge_iff_power)
  ultimately have m: "max (bitlen \<bar>n\<bar> - 1) (- 1022) - 52 = - int k"
    by (simp add: k_def)
  have e: "exponentOf (of_int n) = bitlen \<bar>n\<bar> - 1"
    using a by (simp add: exponentOf_def flip: of_int_abs)
  have q: "quantumOf (of_int n) = 1 / 2 ^ k"
    by (simp add: quantumOf_def e m power_int_minus_divide)
  have "\<bar>rat_of_int n\<bar> / quantumOf (of_int n) = of_int (\<bar>n\<bar> * 2 ^ k)"
    by (simp add: q)
  then have r: "roundHalfEven (\<bar>rat_of_int n\<bar> / quantumOf (of_int n)) = \<bar>n\<bar> * 2 ^ k"
    by (simp only: roundHalfEven_of_int)
  have y: "of_int (\<bar>n\<bar> * 2 ^ k) * quantumOf (of_int n) = \<bar>rat_of_int n\<bar>"
    by (simp add: q)
  have "\<bar>rat_of_int n\<bar> < 2 ^ 53"
    using assms by (metis of_int_abs of_int_less_numeral_power_cancel_iff)
  also have "\<dots> \<le> (2::rat) ^ 1024" by simp
  finally have f: "\<not> (2::rat) ^ 1024 \<le> \<bar>rat_of_int n\<bar>" by simp
  show ?thesis
    using f by (simp add: roundToDouble_def Let_def r y sgn_mult_abs del: of_int_mult of_int_abs)
qed

section \<open>Evaluation and shape of the result\<close>

lemma floor_rat_divide_numeral:
  "\<lfloor>numeral a / numeral b :: rat\<rfloor> = numeral a div numeral b"
  using floor_divide_of_int_eq [of "numeral a" "numeral b", where ?'a = rat] by simp

lemma floor_rat_one_divide_numeral:
  "\<lfloor>1 / numeral b :: rat\<rfloor> = 1 div numeral b"
  using floor_divide_of_int_eq [of 1 "numeral b", where ?'a = rat] by simp

lemma floor_rat_minus_divide_numeral:
  "\<lfloor>- (numeral a / numeral b) :: rat\<rfloor> = - numeral a div numeral b"
  using floor_divide_of_int_eq [of "- numeral a" "numeral b", where ?'a = rat] by simp

lemma floor_rat_minus_one_divide_numeral:
  "\<lfloor>- (1 / numeral b) :: rat\<rfloor> = - 1 div numeral b"
  using floor_divide_of_int_eq [of "- 1" "numeral b", where ?'a = rat] by simp

lemma bitlen_Bit0: "bitlen (numeral (num.Bit0 k)) = bitlen (numeral k) + 1"
  by (subst compute_bitlen) simp

lemma bitlen_Bit1: "bitlen (numeral (num.Bit1 k)) = bitlen (numeral k) + 1"
  by (subst compute_bitlen) simp

lemma bitlen_1: "bitlen 1 = 1"
  by (subst compute_bitlen) simp

lemma bitlen_neg_numeral: "bitlen (- numeral k) = 0"
  by (simp add: bitlen_eq_zero_iff)

lemmas double_eval =
  roundToDouble_def roundHalfEven_def quantumOf_def exponentOf_def Let_def ceiling_def
  floor_rat_divide_numeral floor_rat_one_divide_numeral floor_rat_minus_divide_numeral
  floor_rat_minus_one_divide_numeral
  bitlen_Bit0 bitlen_Bit1 bitlen_1 bitlen_neg_numeral round_def doubleOf_def

lemmas model_defs =
  calculatePayment_def returned_def lectureTotalsOf_def aggregate_def zeroTotals_def
  reducer_def skipped_def truthyNumber_def truthyString_def numberOf_def stringOf_def
  addToGroup_def newGroup_def addChapter_def ratingsSum_def objectPrototypeFunctions_def
  forInKeys_def arrayIndex_def parseDecimal_def digitValue_def
  P_final_unrounded_def P_final_lectures_unrounded_def basePayLectures_unrounded_def
  P_final_other_unrounded_def totalChaptersCompleted_of_def nonLectureTasks_def
  chaptersOf_def CHAPTER_RATE_const_def averageRating_unrounded_def R_minute_of_def
  M_rate_of_def M_freq_of_def M_freq_chain_def
  lecture_def otherTask_def

lemma calculatePayment_Inr:
  "calculatePayment tasks b = Inr r \<Longrightarrow>
     \<exists>tot. lectureTotalsOf tasks = Inr tot \<and> r = returned tot b tasks"
  by (auto simp: calculatePayment_def split: sum.splits)

lemma returned_fields:
  "P_final (returned tot b tasks) = jsRound (P_final_unrounded tot b tasks)"
  "P_final_lectures (returned tot b tasks) = jsRound (P_final_lectures_unrounded tot b)"
  "P_final_other (returned tot b tasks) = jsRound (P_final_other_unrounded tasks)"
  "T_billable (returned tot b tasks) = lectureBillableMinutes tot"
  "totalChaptersCompleted (returned tot b tasks) = totalChaptersCompleted_of tasks"
  "R_minute (returned tot b tasks) = R_minute_of b"
  "M_rate (returned tot b tasks) = M_rate_of (averageRating_unrounded tot)"
  "M_freq (returned tot b tasks) = M_freq_of (lecturesCounted tot) (lectureBillableMinutes tot)"
  "averageRating (returned tot b tasks) = toFixed2 (averageRating_unrounded tot)"
  "lecturesCount (returned tot b tasks) = lecturesCounted tot"
  "basePayLectures (returned tot b tasks) = jsRound (basePayLectures_unrounded tot b)"
  "CHAPTER_RATE (returned tot b tasks) = CHAPTER_RATE_const"
  by (simp_all add: returned_def)

text \<open>Rounding two numbers apart and rounding their sum differ by one at most.\<close>

lemma round_sum_close:
  fixes x y :: rat
  shows "\<bar>round (x + y) - (round x + round y)\<bar> \<le> 1"
proof -
  have "of_int (round (x + y)) \<le> x + y + 1 / 2" "x + y - 1 / 2 < of_int (round (x + y))"
       "of_int (round x) \<le> x + 1 / 2" "x - 1 / 2 < of_int (round x)"
       "of_int (round y) \<le> y + 1 / 2" "y - 1 / 2 < of_int (round y)"
    by (rule of_int_round_le of_int_round_gt)+
  then show ?thesis by linarith
qed

text \<open>The same when the sum is first rounded to a double, below \<open>2\<^sup>5\<^sup>3\<close>.\<close>

lemma round_double_sum_close:
  fixes x y :: rat
  assumes "\<bar>x + y\<bar> < 2 ^ 53"
  shows "\<exists>z. roundToDouble (x + y) = Finite z \<and> \<bar>round z - (round x + round y)\<bar> \<le> 1"
proof -
  from roundToDouble_error [OF assms] obtain z
    where z: "roundToDouble (x + y) = Finite z" and e: "\<bar>z - (x + y)\<bar> \<le> 1 / 2"
    by blast
  have "of_int (round z) \<le> z + 1 / 2" "z - 1 / 2 < of_int (round z)"
       "of_int (round x) \<le> x + 1 / 2" "x - 1 / 2 < of_int (round x)"
       "of_int (round y) \<le> y + 1 / 2" "y - 1 / 2 < of_int (round y)"
    by (rule of_int_round_le of_int_round_gt)+
  with e have "\<bar>round z - (round x + round y)\<bar> \<le> 1" by linarith
  with z show ?thesis by blast
qed

section \<open>Billable minutes are never NaN\<close>

text \<open>
  Minutes that pass line 38 are positive, so every group total and the sum of the
  capped totals is a non-negative double or plus infinity.
\<close>

lemma jsAdd_nonNegative:
  "nonNegative a \<Longrightarrow> nonNegative b \<Longrightarrow> nonNegative (jsAdd a b)"
proof (cases a; cases b)
  fix x y
  assume "nonNegative a" "nonNegative b" "a = Finite x" "b = Finite y"
  then have "0 \<le> x + y" by (simp add: nonNegative_def)
  then have "nonNegative (roundToDouble (x + y))" by (rule roundToDouble_nonNegative)
  with \<open>a = Finite x\<close> \<open>b = Finite y\<close> show ?thesis by simp
qed (simp_all add: nonNegative_def)

lemma jsMin_nonNegative: "nonNegative a \<Longrightarrow> nonNegative (jsMin a (Finite 240))"
  by (cases a) (simp_all add: nonNegative_def)

lemma jsLess_total:
  "nonNegative T \<Longrightarrow> \<not> jsLessEq (Finite c) T \<Longrightarrow> jsLess T (Finite c)"
  by (cases T) (simp_all add: nonNegative_def)

lemma set_update_subset: "set (AList.update k v al) \<subseteq> insert (k, v) (set al)"
  by (induction al) auto

lemma addToGroup_nonNegative:
  "\<not> skipped t \<Longrightarrow> nonNegative (totalMinutes g) \<Longrightarrow>
     nonNegative (totalMinutes (addToGroup t g))"
proof -
  assume "\<not> skipped t" and g: "nonNegative (totalMinutes g)"
  then have "nonNegative (Finite (numberOf (minutes t)))"
    by (simp add: skipped_def nonNegative_def)
  with g show ?thesis
    by (simp add: addToGroup_def jsAdd_nonNegative)
qed

lemma reducer_nonNegative:
  assumes "reducer s t = Inr s'"
    and "\<forall>p\<in>set (fst s). nonNegative (totalMinutes (snd p))"
  shows "\<forall>p\<in>set (fst s'). nonNegative (totalMinutes (snd p))"
proof (cases "skipped t")
  case True
  with assms show ?thesis by (simp add: reducer_def)
next
  case False
  let ?k = "stringOf (chapterName t)"
  show ?thesis
  proof (cases "map_of (fst s) ?k")
    case None
    have "nonNegative (totalMinutes (addToGroup t newGroup))"
      using False by (intro addToGroup_nonNegative) (simp_all add: newGroup_def nonNegative_def)
    with assms False None set_update_subset [of ?k "addToGroup t newGroup" "fst s"]
    show ?thesis
      by (auto simp: reducer_def Let_def split: if_splits)
  next
    case (Some g)
    then have "(?k, g) \<in> set (fst s)" by (rule map_of_SomeD)
    with assms(2) have "nonNegative (totalMinutes g)" by force
    with False have "nonNegative (totalMinutes (addToGroup t g))"
      by (rule addToGroup_nonNegative)
    with assms False Some set_update_subset [of ?k "addToGroup t g" "fst s"]
    show ?thesis
      by (auto simp: reducer_def Let_def)
  qed
qed

lemma reduce_nonNegative:
  "reduce s tasks = Inr s' \<Longrightarrow>
   \<forall>p\<in>set (fst s). nonNegative (totalMinutes (snd p)) \<Longrightarrow>
   \<forall>p\<in>set (fst s'). nonNegative (totalMinutes (snd p))"
proof (induction tasks arbitrary: s)
  case Nil
  then show ?case by simp
next
  case (Cons t ts)
  from Cons.prems(1) obtain s1 where 1: "reducer s t = Inr s1" and 2: "reduce s1 ts = Inr s'"
    by (auto split: sum.splits)
  from reducer_nonNegative [OF 1 Cons.prems(2)] Cons.IH [OF 2] show ?case by blast
qed

lemma forIn_nonNegative:
  "\<forall>p\<in>set acc. nonNegative (totalMinutes (snd p)) \<Longrightarrow>
   nonNegative (lectureBillableMinutes tot) \<Longrightarrow>
   nonNegative (lectureBillableMinutes (forIn acc tot ks))"
proof (induction ks arbitrary: tot)
  case Nil
  then show ?case by simp
next
  case (Cons k ks)
  show ?case
  proof (cases "map_of acc k")
    case None
    with Cons show ?thesis by simp
  next
    case (Some g)
    then have "(k, g) \<in> set acc" by (rule map_of_SomeD)
    with Cons.prems(1) have "nonNegative (totalMinutes g)" by force
    with Cons.prems(2) have "nonNegative (lectureBillableMinutes (addChapter tot g))"
      by (simp add: addChapter_def jsAdd_nonNegative jsMin_nonNegative)
    with Cons.IH [OF Cons.prems(1)] Some show ?thesis by simp
  qed
qed

lemma lectureTotalsOf_nonNegative:
  assumes "lectureTotalsOf tasks = Inr tot"
  shows "nonNegative (lectureBillableMinutes tot)"
proof -
  from assms obtain s where r: "reduce ([], False) tasks = Inr s" and a: "aggregate s = Inr tot"
    by (auto simp: lectureTotalsOf_def split: sum.splits)
  from reduce_nonNegative [OF r] have "\<forall>p\<in>set (fst s). nonNegative (totalMinutes (snd p))"
    by simp
  then have "nonNegative (lectureBillableMinutes
               (forIn (fst s) zeroTotals (forInKeys (map fst (fst s)))))"
    by (rule forIn_nonNegative) (simp add: zeroTotals_def nonNegative_def)
  with a show ?thesis by (auto simp: aggregate_def split: if_splits)
qed

section \<open>The frequency modifier\<close>

text \<open>
  C1. Whenever \<^verbatim>\<open>calculatePayment\<close> returns, the returned \<open>M_freq\<close> is decided by the
  returned \<open>lecturesCount\<close> and \<open>T_billable\<close> in priority order: 1.2 when the count is
  at least 3 and the minutes at least 180, otherwise 1.0 when the count is at least 2
  and the minutes at least 120, and 0.8 in every remaining case. The value the variable
  was initialised with never survives the chain: the result is the same for every
  initial value. At (3, 180) the modifier is 1.2, at (2, 120) it is 1.0 and at (1, 50)
  it is 0.8.
\<close>

theorem M_freq_three_outcomes:
  assumes "calculatePayment tasks b = Inr r"
  shows "M_freq r =
           (if 3 \<le> lecturesCount r \<and> jsLessEq (Finite 180) (T_billable r)
            then roundToDouble (12 / 10)
            else if 2 \<le> lecturesCount r \<and> jsLessEq (Finite 120) (T_billable r)
            then Finite 1
            else roundToDouble (8 / 10))
         \<and> (\<forall>initial. M_freq r = M_freq_chain initial (lecturesCount r) (T_billable r))
         \<and> M_freq_of 3 (Finite 180) = roundToDouble (12 / 10)
         \<and> M_freq_of 2 (Finite 120) = Finite 1
         \<and> M_freq_of 1 (Finite 50) = roundToDouble (8 / 10)"
proof -
  from calculatePayment_Inr [OF assms] obtain tot
    where t: "lectureTotalsOf tasks = Inr tot" and r: "r = returned tot b tasks"
    by blast
  have n: "nonNegative (lectureBillableMinutes tot)"
    by (rule lectureTotalsOf_nonNegative [OF t])
  have g: "\<not> jsLessEq (Finite 120) (lectureBillableMinutes tot)
             \<Longrightarrow> jsLess (lectureBillableMinutes tot) (Finite 120)"
    by (rule jsLess_total [OF n])
  have c: "\<And>initial. M_freq_chain initial (lecturesCounted tot) (lectureBillableMinutes tot)
             = (if 3 \<le> lecturesCounted tot \<and> jsLessEq (Finite 180) (lectureBillableMinutes tot)
                then roundToDouble (12 / 10)
                else if 2 \<le> lecturesCounted tot
                        \<and> jsLessEq (Finite 120) (lectureBillableMinutes tot)
                then Finite 1
                else roundToDouble (8 / 10))"
    using g by (auto simp: M_freq_chain_def)
  have "M_freq_of 3 (Finite 180) = roundToDouble (12 / 10)"
       "M_freq_of 2 (Finite 120) = Finite 1"
       "M_freq_of 1 (Finite 50) = roundToDouble (8 / 10)"
    by (simp_all add: M_freq_of_def M_freq_chain_def)
  then show ?thesis
    by (simp add: r returned_fields M_freq_of_def c)
qed

theorem M_freq_three_outcomes_witness:
  "\<exists>r. calculatePayment
          [lecture ''Ch1'' 60 None, lecture ''Ch1'' 60 None, lecture ''Ch2'' 60 None]
          (Some 10) = Inr r
       \<and> lecturesCount r = 3 \<and> T_billable r = Finite 180
       \<and> M_freq r = roundToDouble (12 / 10)"
proof -
  let ?ts = "[lecture ''Ch1'' 60 None, lecture ''Ch1'' 60 None, lecture ''Ch2'' 60 None]"
  have "\<exists>r. calculatePayment ?ts (Some 10) = Inr r
          \<and> lecturesCount r = 3 \<and> T_billable r = Finite 180"
    by (simp add: model_defs double_eval)
  then obtain r where e: "calculatePayment ?ts (Some 10) = Inr r"
    and f: "lecturesCount r = 3" "T_billable r = Finite 180"
    by blast
  from M_freq_three_outcomes [OF e] f have "M_freq r = roundToDouble (12 / 10)" by simp
  with e f show ?thesis by blast
qed

section \<open>Other work as a loop, and skipped records\<close>

lemma forEach_foldl:
  "forEach a ts =
     (foldl (\<lambda>s u. jsAdd s (chaptersOf u)) (fst a) ts,
      foldl (\<lambda>s u. jsAdd s (jsMul (chaptersOf u) (Finite 500))) (snd a) ts)"
  by (induction ts arbitrary: a) (simp_all add: CHAPTER_RATE_const_def)

lemma P_final_other_unrounded_foldl:
  "P_final_other_unrounded tasks =
     foldl (\<lambda>s u. jsAdd s (jsMul (chaptersOf u) (Finite 500))) (Finite 0)
       (filter (\<lambda>u. taskType u \<noteq> Some ''Lecture'') tasks)"
  by (simp add: P_final_other_unrounded_def forEach_foldl nonLectureTasks_def)

lemma totalChaptersCompleted_of_foldl:
  "totalChaptersCompleted_of tasks =
     foldl (\<lambda>s u. jsAdd s (chaptersOf u)) (Finite 0)
       (filter (\<lambda>u. taskType u \<noteq> Some ''Lecture'') tasks)"
  by (simp add: totalChaptersCompleted_of_def forEach_foldl nonLectureTasks_def)

lemma chaptersOf_field:
  "chaptersOf t = (case chaptersCompleted t of None \<Rightarrow> Finite 0 | Some c \<Rightarrow> Finite c)"
  by (simp add: chaptersOf_def truthyNumber_def numberOf_def split: option.splits)

lemma reducer_skipped: "skipped t \<Longrightarrow> reducer s t = Inr s"
  by (simp add: reducer_def)

lemma reduce_append:
  "reduce s (xs @ ys) = (case reduce s xs of Inl e \<Rightarrow> Inl e | Inr s' \<Rightarrow> reduce s' ys)"
  by (induction xs arbitrary: s) (simp_all split: sum.splits)

lemma reduce_skipped: "skipped t \<Longrightarrow> reduce s (xs @ t # ys) = reduce s (xs @ ys)"
  by (simp add: reduce_append reducer_skipped split: sum.splits)

lemma reduce_filter:
  "(\<And>t. t \<in> set ts \<Longrightarrow> \<not> P t \<Longrightarrow> skipped t) \<Longrightarrow> reduce s (filter P ts) = reduce s ts"
  by (induction ts arbitrary: s) (auto simp: reducer_skipped split: sum.splits)

lemma not_lecture_skipped: "taskType t \<noteq> Some ''Lecture'' \<Longrightarrow> skipped t"
  by (simp add: skipped_def)

lemma lectureTotalsOf_skipped:
  "skipped t \<Longrightarrow> lectureTotalsOf (xs @ t # ys) = lectureTotalsOf (xs @ ys)"
  by (simp add: lectureTotalsOf_def reduce_skipped)

lemma returned_cong:
  "P_final_other_unrounded ts = P_final_other_unrounded ts' \<Longrightarrow>
   totalChaptersCompleted_of ts = totalChaptersCompleted_of ts' \<Longrightarrow>
   returned tot b ts = returned tot b ts'"
  by (simp add: returned_def P_final_unrounded_def)

lemma calculatePayment_cong:
  "lectureTotalsOf ts = lectureTotalsOf ts' \<Longrightarrow>
   P_final_other_unrounded ts = P_final_other_unrounded ts' \<Longrightarrow>
   totalChaptersCompleted_of ts = totalChaptersCompleted_of ts' \<Longrightarrow>
   calculatePayment ts b = calculatePayment ts' b"
  by (simp add: calculatePayment_def returned_cong [of ts ts'] split: sum.splits)

text \<open>
  Whole units are added without rounding while the total stays below \<open>2\<^sup>5\<^sup>3\<close>: the
  accumulator after a list of records with \<open>k u\<close> units each, paid \<open>c\<close> per unit.
\<close>

lemma roundToDouble_of_nat:
  "n < 2 ^ 53 \<Longrightarrow> roundToDouble (of_nat n) = Finite (of_nat n)"
  using roundToDouble_of_int [of "int n"] by simp

lemma foldl_whole_units:
  assumes "\<forall>u\<in>set us. chaptersOf u = Finite (of_nat (k u))"
    and "a + c * (\<Sum>u\<leftarrow>us. k u) < 2 ^ 53"
  shows "foldl (\<lambda>s u. jsAdd s (jsMul (chaptersOf u) (Finite (of_nat c)))) (Finite (of_nat a)) us
         = Finite (of_nat (a + c * (\<Sum>u\<leftarrow>us. k u)))"
  using assms
proof (induction us arbitrary: a)
  case Nil
  then show ?case by simp
next
  case (Cons u us)
  have b: "a + c * k u + c * (\<Sum>v\<leftarrow>us. k v) < 2 ^ 53"
    using Cons.prems(2) by (simp add: algebra_simps)
  then have "k u * c < 2 ^ 53" "a + k u * c < 2 ^ 53"
    by (simp_all add: algebra_simps)
  then have "jsAdd (Finite (of_nat a)) (jsMul (Finite (of_nat (k u))) (Finite (of_nat c)))
             = Finite (of_nat (a + c * k u))"
    using roundToDouble_of_nat [of "k u * c"] roundToDouble_of_nat [of "a + k u * c"]
    by (simp add: mult.commute)
  moreover have "\<forall>v\<in>set us. chaptersOf v = Finite (of_nat (k v))"
    using Cons.prems(1) by simp
  moreover have "chaptersOf u = Finite (of_nat (k u))"
    using Cons.prems(1) by simp
  ultimately show ?case
    using Cons.IH [of "a + c * k u"] b by (simp add: add.assoc distrib_left)
qed

section \<open>The scenario of the specification\<close>

text \<open>
  C2. With base rate 10, two Lecture records of chapter Ch1 (150 minutes rated 4 and
  100 minutes rated 4.5) and one Content record with 3 completed chapters, the function
  returns \<open>T_billable = 240\<close>, the average rating text 4.25, \<open>M_rate = 1\<close>,
  \<open>lecturesCount = 2\<close>, \<open>M_freq = 1\<close>, \<open>basePayLectures = 2400\<close>,
  \<open>P_final_lectures = 2400\<close>, \<open>P_final_other = 1500\<close> and \<open>P_final = 3900\<close>, whatever the
  fields are that the scenario leaves open.
\<close>

theorem scenario_breakdown:
  "\<exists>r. calculatePayment
         [\<lparr>taskType = Some ''Lecture'', chapterName = Some ''Ch1'', minutes = Some 150,
           rating = Some 4, chaptersCompleted = c1\<rparr>,
          \<lparr>taskType = Some ''Lecture'', chapterName = Some ''Ch1'', minutes = Some 100,
           rating = Some (9 / 2), chaptersCompleted = c2\<rparr>,
          \<lparr>taskType = Some ''Content'', chapterName = n3, minutes = m3,
           rating = q3, chaptersCompleted = Some 3\<rparr>]
         (Some 10) = Inr r
       \<and> T_billable r = Finite 240 \<and> averageRating r = Digits ''4.25''
       \<and> M_rate r = Finite 1
       \<and> lecturesCount r = 2 \<and> M_freq r = Finite 1 \<and> basePayLectures r = Finite 2400
       \<and> P_final_lectures r = Finite 2400 \<and> P_final_other r = Finite 1500
       \<and> P_final r = Finite 3900"
  by (simp add: model_defs double_eval)

theorem scenario_breakdown_witness:
  "\<exists>r. calculatePayment
         [\<lparr>taskType = Some ''Lecture'', chapterName = Some ''Ch1'', minutes = Some 150,
           rating = Some 4, chaptersCompleted = None\<rparr>,
          \<lparr>taskType = Some ''Lecture'', chapterName = Some ''Ch1'', minutes = Some 100,
           rating = Some (9 / 2), chaptersCompleted = None\<rparr>,
          \<lparr>taskType = Some ''Content'', chapterName = None, minutes = None,
           rating = None, chaptersCompleted = Some 3\<rparr>]
         (Some 10) = Inr r
       \<and> T_billable r = Finite 240 \<and> averageRating r = Digits ''4.25''
       \<and> M_rate r = Finite 1
       \<and> lecturesCount r = 2 \<and> M_freq r = Finite 1 \<and> basePayLectures r = Finite 2400
       \<and> P_final_lectures r = Finite 2400 \<and> P_final_other r = Finite 1500
       \<and> P_final r = Finite 3900"
  by (rule scenario_breakdown)

section \<open>The empty list\<close>

text \<open>
  C6. For the empty list and any base rate the function returns \<open>P_final = 0\<close>, the
  average rating text 5.00, \<open>M_rate = 1\<close>, \<open>M_freq = 0.8\<close> and \<open>T_billable = 0\<close>.
\<close>

theorem empty_list_breakdown:
  "\<exists>r. calculatePayment [] b = Inr r \<and> P_final r = Finite 0
       \<and> averageRating r = Digits ''5.00''
       \<and> M_rate r = Finite 1 \<and> M_freq r = roundToDouble (8 / 10) \<and> T_billable r = Finite 0"
  by (simp add: model_defs double_eval)

theorem empty_list_breakdown_witness:
  "\<exists>r. calculatePayment [] (Some 25) = Inr r \<and> P_final r = Finite 0
       \<and> averageRating r = Digits ''5.00''
       \<and> M_rate r = Finite 1 \<and> M_freq r = roundToDouble (8 / 10) \<and> T_billable r = Finite 0"
  by (rule empty_list_breakdown)

section \<open>The quality modifier\<close>

text \<open>
  C4. Whenever the function returns, the returned \<open>M_rate\<close> is the step function of
  the average rating that line 68 computes in double arithmetic (the number whose
  two-decimal text is the returned \<open>averageRating\<close>): 0.6 below 2.5, 0.75 from 2.5 to
  3.5 with both ends included, and 1.0 above 3.5; a NaN average fails both tests and
  gives 1.0. At exactly 3.5 and at exactly 2.5 it is 0.75, at 2.49 it is 0.6.
\<close>

theorem M_rate_step_function:
  assumes "calculatePayment tasks b = Inr r"
  shows "\<exists>tot. lectureTotalsOf tasks = Inr tot
           \<and> averageRating r = toFixed2 (averageRating_unrounded tot)
           \<and> (jsLess (averageRating_unrounded tot) (Finite (5 / 2))
                \<longrightarrow> M_rate r = roundToDouble (6 / 10))
           \<and> (jsLessEq (Finite (5 / 2)) (averageRating_unrounded tot)
                \<and> jsLessEq (averageRating_unrounded tot) (Finite (7 / 2))
                \<longrightarrow> M_rate r = Finite (75 / 100))
           \<and> (jsLess (Finite (7 / 2)) (averageRating_unrounded tot) \<longrightarrow> M_rate r = Finite 1)
           \<and> (averageRating_unrounded tot = NaN \<longrightarrow> M_rate r = Finite 1)
           \<and> M_rate_of (Finite (7 / 2)) = Finite (75 / 100)
           \<and> M_rate_of (Finite (5 / 2)) = Finite (75 / 100)
           \<and> M_rate_of (roundToDouble (249 / 100)) = roundToDouble (6 / 10)"
proof -
  from calculatePayment_Inr [OF assms] obtain tot
    where t: "lectureTotalsOf tasks = Inr tot" and r: "r = returned tot b tasks"
    by blast
  have s: "(jsLess a (Finite (5 / 2)) \<longrightarrow> M_rate_of a = roundToDouble (6 / 10))
         \<and> (jsLessEq (Finite (5 / 2)) a \<and> jsLessEq a (Finite (7 / 2))
              \<longrightarrow> M_rate_of a = Finite (75 / 100))
         \<and> (jsLess (Finite (7 / 2)) a \<longrightarrow> M_rate_of a = Finite 1)
         \<and> (a = NaN \<longrightarrow> M_rate_of a = Finite 1)" for a
    by (cases a) (auto simp: M_rate_of_def)
  have "M_rate_of (Finite (7 / 2)) = Finite (75 / 100)"
       "M_rate_of (Finite (5 / 2)) = Finite (75 / 100)"
       "M_rate_of (roundToDouble (249 / 100)) = roundToDouble (6 / 10)"
    by (simp_all add: M_rate_of_def double_eval)
  with s [of "averageRating_unrounded tot"] show ?thesis
    by (intro exI [of _ tot]) (simp add: t r returned_fields)
qed

theorem M_rate_step_function_witness:
  "\<exists>r. calculatePayment [lecture ''Ch1'' 30 (Some 3), lecture ''Ch2'' 30 (Some 4)] None = Inr r
       \<and> averageRating r = Digits ''3.50'' \<and> M_rate r = Finite (75 / 100)"
proof -
  let ?ts = "[lecture ''Ch1'' 30 (Some 3), lecture ''Ch2'' 30 (Some 4)]"
  have "\<exists>r. calculatePayment ?ts None = Inr r \<and> averageRating r = Digits ''3.50''"
    by (simp add: model_defs double_eval)
  then obtain r where e: "calculatePayment ?ts None = Inr r"
    and a: "averageRating r = Digits ''3.50''"
    by blast
  from M_rate_step_function [OF e] obtain tot
    where t: "lectureTotalsOf ?ts = Inr tot"
      and m: "jsLessEq (Finite (5 / 2)) (averageRating_unrounded tot)
                \<and> jsLessEq (averageRating_unrounded tot) (Finite (7 / 2))
                \<longrightarrow> M_rate r = Finite (75 / 100)"
    by blast
  have "lectureTotalsOf ?ts =
          Inr \<lparr>lectureBillableMinutes = Finite 60, lecturesCounted = 2,
               lectureRatingSum = Finite 7, lectureRatingCount = 2\<rparr>"
    by (simp add: model_defs double_eval)
  with t have "averageRating_unrounded tot = Finite (7 / 2)"
    by (auto simp: averageRating_unrounded_def double_eval)
  with m have "M_rate r = Finite (75 / 100)" by simp
  with e a show ?thesis by blast
qed

text \<open>
  The average is the one of the doubles: the ratings 3.1, 3.3, 3.7 and 3.9 of four
  chapters add up to \<open>14 + 2\<^sup>-\<^sup>4\<^sup>9\<close>, the average is \<open>3.5 + 2\<^sup>-\<^sup>5\<^sup>1\<close>, above 3.5, and the
  modifier is 1.0, while the text of the average is 3.50.
\<close>

lemma average_just_above_boundary:
  "\<exists>r. calculatePayment
          [lecture ''A'' 30 (Some (doubleOf (31 / 10))),
           lecture ''B'' 30 (Some (doubleOf (33 / 10))),
           lecture ''C'' 30 (Some (doubleOf (37 / 10))),
           lecture ''D'' 30 (Some (doubleOf (39 / 10)))] b = Inr r
       \<and> M_rate r = Finite 1 \<and> averageRating r = Digits ''3.50''"
proof -
  have "lectureTotalsOf
          [lecture ''A'' 30 (Some (doubleOf (31 / 10))),
           lecture ''B'' 30 (Some (doubleOf (33 / 10))),
           lecture ''C'' 30 (Some (doubleOf (37 / 10))),
           lecture ''D'' 30 (Some (doubleOf (39 / 10)))]
        = Inr \<lparr>lectureBillableMinutes = Finite 120, lecturesCounted = 4,
               lectureRatingSum = Finite (7881299347898369 / 562949953421312),
               lectureRatingCount = 4\<rparr>"
    by (simp add: model_defs double_eval)
  then show ?thesis
    by (simp add: calculatePayment_def returned_fields averageRating_unrounded_def
        M_rate_of_def double_eval)
qed

section \<open>The rate per minute\<close>

text \<open>
  C9. Whenever the function returns, the returned \<open>R_minute\<close> is the supplied base rate
  when that is a nonzero number and 10 when it is zero or missing; the base pay of
  line 65 is the double product of \<open>T_billable\<close> and \<open>R_minute\<close>, and the returned
  \<open>basePayLectures\<close> is that product rounded by line 125.
\<close>

theorem R_minute_and_base_pay:
  assumes "calculatePayment tasks b = Inr r"
  shows "(\<forall>x. b = Some x \<and> x \<noteq> 0 \<longrightarrow> R_minute r = Finite x)
         \<and> (b = None \<or> b = Some 0 \<longrightarrow> R_minute r = Finite 10)
         \<and> (\<exists>tot. lectureTotalsOf tasks = Inr tot
               \<and> basePayLectures_unrounded tot b = jsMul (T_billable r) (R_minute r)
               \<and> basePayLectures r = jsRound (jsMul (T_billable r) (R_minute r)))"
proof -
  from calculatePayment_Inr [OF assms] obtain tot
    where t: "lectureTotalsOf tasks = Inr tot" and r: "r = returned tot b tasks"
    by blast
  have "\<forall>x. b = Some x \<and> x \<noteq> 0 \<longrightarrow> R_minute r = Finite x"
    by (simp add: r returned_fields R_minute_of_def truthyNumber_def numberOf_def)
  moreover have "b = None \<or> b = Some 0 \<longrightarrow> R_minute r = Finite 10"
    by (auto simp: r returned_fields R_minute_of_def truthyNumber_def numberOf_def)
  moreover have "basePayLectures_unrounded tot b = jsMul (T_billable r) (R_minute r)"
    by (simp add: r returned_fields basePayLectures_unrounded_def)
  moreover have "basePayLectures r = jsRound (jsMul (T_billable r) (R_minute r))"
    by (simp add: r returned_fields basePayLectures_unrounded_def)
  ultimately show ?thesis using t by blast
qed

theorem R_minute_and_base_pay_witness:
  "\<exists>r. calculatePayment [lecture ''Ch1'' 60 None] (Some 0) = Inr r
       \<and> R_minute r = Finite 10 \<and> T_billable r = Finite 60
       \<and> basePayLectures r = Finite 600"
proof -
  let ?ts = "[lecture ''Ch1'' 60 None]"
  have "\<exists>r. calculatePayment ?ts (Some 0) = Inr r
          \<and> T_billable r = Finite 60 \<and> basePayLectures r = Finite 600"
    by (simp add: model_defs double_eval)
  then obtain r where e: "calculatePayment ?ts (Some 0) = Inr r"
    and f: "T_billable r = Finite 60" "basePayLectures r = Finite 600"
    by blast
  from R_minute_and_base_pay [OF e] have "R_minute r = Finite 10" by blast
  with e f show ?thesis by blast
qed

text \<open>
  The product is the one of the doubles: 5 minutes at the rate 1.7 are exactly 8.5,
  which line 125 rounds to 9, although the exact product lies just below 8.5.
\<close>

lemma base_pay_of_double_product:
  "\<exists>r. calculatePayment [lecture ''Ch1'' 5 None] (Some (doubleOf (17 / 10))) = Inr r
       \<and> basePayLectures r = Finite 9
       \<and> 5 * doubleOf (17 / 10) < 17 / 2"
  by (simp add: model_defs double_eval)

section \<open>Rounding of the monetary outputs\<close>

text \<open>
  C5, as amended. Whenever the function returns, \<open>P_final\<close> is the rounding of the
  double sum of the unrounded lecture pay and the unrounded other pay;
  \<open>P_final_lectures\<close>, \<open>P_final_other\<close> and \<open>basePayLectures\<close> are the roundings of their
  unrounded values; the unrounded lecture pay is the double product of the returned
  \<open>T_billable\<close>, \<open>R_minute\<close>, \<open>M_rate\<close> and \<open>M_freq\<close>, which are therefore returned at full
  precision; and \<open>P_final\<close> differs from \<open>P_final_lectures + P_final_other\<close> by at most 1
  whenever the two unrounded parts are finite and their exact sum is below \<open>2\<^sup>5\<^sup>3\<close> in
  absolute value.
\<close>

theorem P_final_rounding:
  assumes "calculatePayment tasks b = Inr r"
  shows "\<exists>tot. lectureTotalsOf tasks = Inr tot
           \<and> P_final r = jsRound (jsAdd (P_final_lectures_unrounded tot b)
                                    (P_final_other_unrounded tasks))
           \<and> P_final_lectures r = jsRound (P_final_lectures_unrounded tot b)
           \<and> P_final_other r = jsRound (P_final_other_unrounded tasks)
           \<and> basePayLectures r = jsRound (basePayLectures_unrounded tot b)
           \<and> P_final_lectures_unrounded tot b
               = jsMul (jsMul (jsMul (T_billable r) (R_minute r)) (M_rate r)) (M_freq r)
           \<and> M_rate r = M_rate_of (averageRating_unrounded tot)
           \<and> M_freq r = M_freq_of (lecturesCount r) (T_billable r)
           \<and> (\<forall>l w. P_final_lectures_unrounded tot b = Finite l
                  \<and> P_final_other_unrounded tasks = Finite w \<and> \<bar>l + w\<bar> < 2 ^ 53
                \<longrightarrow> (\<exists>p. P_final r = Finite (of_int p)
                       \<and> P_final_lectures r = Finite (of_int (round l))
                       \<and> P_final_other r = Finite (of_int (round w))
                       \<and> \<bar>p - (round l + round w)\<bar> \<le> 1)
                    \<and> roundingGap r \<le> 1)"
proof -
  from calculatePayment_Inr [OF assms] obtain tot
    where t: "lectureTotalsOf tasks = Inr tot" and r: "r = returned tot b tasks"
    by blast
  have g: "(\<exists>p. P_final r = Finite (of_int p)
               \<and> P_final_lectures r = Finite (of_int (round l))
               \<and> P_final_other r = Finite (of_int (round w))
               \<and> \<bar>p - (round l + round w)\<bar> \<le> 1)
           \<and> roundingGap r \<le> 1"
    if l: "P_final_lectures_unrounded tot b = Finite l"
      and w: "P_final_other_unrounded tasks = Finite w"
      and s: "\<bar>l + w\<bar> < 2 ^ 53" for l w
  proof -
    from round_double_sum_close [OF s] obtain z
      where z: "roundToDouble (l + w) = Finite z"
        and c: "\<bar>round z - (round l + round w)\<bar> \<le> 1"
      by blast
    have p: "P_final r = Finite (of_int (round z))"
      "P_final_lectures r = Finite (of_int (round l))"
      "P_final_other r = Finite (of_int (round w))"
      by (simp_all add: r returned_fields P_final_unrounded_def l w z)
    have "roundingGap r = \<bar>of_int (round z - (round l + round w))\<bar>"
      by (simp add: roundingGap_def p valueOf_def)
    also have "\<dots> \<le> 1"
      using c by (simp only: of_int_abs [symmetric] of_int_le_1_iff)
    finally have "roundingGap r \<le> 1" .
    with p c show ?thesis by blast
  qed
  have "P_final r = jsRound (jsAdd (P_final_lectures_unrounded tot b)
                                    (P_final_other_unrounded tasks))"
       "P_final_lectures r = jsRound (P_final_lectures_unrounded tot b)"
       "P_final_other r = jsRound (P_final_other_unrounded tasks)"
       "basePayLectures r = jsRound (basePayLectures_unrounded tot b)"
       "P_final_lectures_unrounded tot b
               = jsMul (jsMul (jsMul (T_billable r) (R_minute r)) (M_rate r)) (M_freq r)"
       "M_rate r = M_rate_of (averageRating_unrounded tot)"
       "M_freq r = M_freq_of (lecturesCount r) (T_billable r)"
    by (simp_all add: r returned_fields P_final_unrounded_def P_final_lectures_unrounded_def
          basePayLectures_unrounded_def)
  with t g show ?thesis by blast
qed

text \<open>
  The bound is reached: one minute at rate 0.625 with the penalty 0.8 pays 0.5, a
  thousandth of a unit of other work pays 0.5; each rounds to 1 and their sum to 1.
\<close>

theorem P_final_rounding_witness:
  "\<exists>r. calculatePayment [lecture ''Ch1'' 1 None, otherTask ''Content'' (doubleOf (1 / 1000))]
          (Some (5 / 8)) = Inr r
       \<and> P_final r = Finite 1 \<and> P_final_lectures r = Finite 1 \<and> P_final_other r = Finite 1
       \<and> roundingGap r \<le> 1"
proof -
  let ?ts = "[lecture ''Ch1'' 1 None, otherTask ''Content'' (doubleOf (1 / 1000))]"
  let ?tot = "\<lparr>lectureBillableMinutes = Finite 1, lecturesCounted = 1,
              lectureRatingSum = Finite 0, lectureRatingCount = 0\<rparr>"
  have "\<exists>r. calculatePayment ?ts (Some (5 / 8)) = Inr r
       \<and> P_final r = Finite 1 \<and> P_final_lectures r = Finite 1 \<and> P_final_other r = Finite 1"
    by (simp add: model_defs double_eval)
  then obtain r where e: "calculatePayment ?ts (Some (5 / 8)) = Inr r"
     and f: "P_final r = Finite 1" "P_final_lectures r = Finite 1" "P_final_other r = Finite 1"
    by blast
  from P_final_rounding [OF e] obtain tot
    where t: "lectureTotalsOf ?ts = Inr tot"
      and g: "\<forall>l w. P_final_lectures_unrounded tot (Some (5 / 8)) = Finite l
                  \<and> P_final_other_unrounded ?ts = Finite w \<and> \<bar>l + w\<bar> < 2 ^ 53
                \<longrightarrow> roundingGap r \<le> 1"
    by blast
  have "lectureTotalsOf ?ts = Inr ?tot"
    by (simp add: model_defs double_eval)
  with t have "tot = ?tot" by simp
  then have l: "P_final_lectures_unrounded tot (Some (5 / 8)) = Finite (1 / 2)"
    by (simp add: model_defs double_eval)
  have w: "P_final_other_unrounded ?ts = Finite (1 / 2)"
    by (simp add: model_defs double_eval)
  from g l w have "roundingGap r \<le> 1" by fastforce
  with e f show ?thesis by blast
qed

text \<open>
  C5 as stated fails beyond \<open>2\<^sup>5\<^sup>3\<close>. Two lectures of 64 minutes in one chapter at the
  base rate \<open>2\<^sup>5\<^sup>5\<close> pay \<open>2\<^sup>6\<^sup>2\<close>; the doubles near \<open>2\<^sup>6\<^sup>2\<close> are 1024 apart, so adding the
  other pay of 500 on line 111 changes nothing, and \<open>P_final\<close> is 500 less than
  \<open>P_final_lectures + P_final_other\<close>.
\<close>

theorem P_final_rounding_counterexample:
  "calculatePayment
     [lecture ''Ch1'' 64 None, lecture ''Ch1'' 64 None, otherTask ''Content'' 1]
     (Some (2 ^ 55))
   = Inr \<lparr>P_final = Finite (2 ^ 62), P_final_lectures = Finite (2 ^ 62),
          P_final_other = Finite 500, T_billable = Finite 128,
          totalChaptersCompleted = Finite 1, R_minute = Finite (2 ^ 55),
          M_rate = Finite 1, M_freq = Finite 1, averageRating = Digits ''5.00'',
          lecturesCount = 2, basePayLectures = Finite (2 ^ 62),
          CHAPTER_RATE = Finite 500\<rparr>
   \<and> roundingGap
       (projr (calculatePayment
          [lecture ''Ch1'' 64 None, lecture ''Ch1'' 64 None, otherTask ''Content'' 1]
          (Some (2 ^ 55)))) = 500
   \<and> \<not> roundingGap
       (projr (calculatePayment
          [lecture ''Ch1'' 64 None, lecture ''Ch1'' 64 None, otherTask ''Content'' 1]
          (Some (2 ^ 55)))) \<le> 1"
proof -
  have "calculatePayment
     [lecture ''Ch1'' 64 None, lecture ''Ch1'' 64 None, otherTask ''Content'' 1]
     (Some (2 ^ 55))
   = Inr \<lparr>P_final = Finite (2 ^ 62), P_final_lectures = Finite (2 ^ 62),
          P_final_other = Finite 500, T_billable = Finite 128,
          totalChaptersCompleted = Finite 1, R_minute = Finite (2 ^ 55),
          M_rate = Finite 1, M_freq = Finite 1, averageRating = Digits ''5.00'',
          lecturesCount = 2, basePayLectures = Finite (2 ^ 62),
          CHAPTER_RATE = Finite 500\<rparr>"
    by (simp add: model_defs double_eval)
  then show ?thesis
    by (simp add: roundingGap_def valueOf_def)
qed

section \<open>Other work\<close>

text \<open>
  C7. For a record \<open>t\<close> whose type is not Lecture: the returned \<open>P_final_other\<close> is
  the rounding of the sum, over the records whose type is not Lecture and in their
  order, of \<open>chaptersCompleted * 500\<close>, with a missing field counted as 0, and
  \<open>totalChaptersCompleted\<close> is the sum of their \<open>chaptersCompleted\<close>, both as the loop
  adds them; \<open>t\<close> adds exactly \<open>chaptersCompleted * 500\<close> to the pay of line 107 and its
  \<open>chaptersCompleted\<close> to the total, without a cap, and a Lecture record adds nothing to
  either; changing the chapter name, minutes and rating of \<open>t\<close> changes nothing in the
  result; a single such record with 4 completed chapters gives \<open>P_final_other = 2000\<close>;
  and when the completed chapters are whole numbers \<open>k u\<close> whose pay stays below \<open>2\<^sup>5\<^sup>3\<close>,
  no addition rounds: \<open>P_final_other\<close> is exactly 500 times their sum.
\<close>

theorem other_work_linear:
  assumes "taskType t \<noteq> Some ''Lecture''"
  shows "(calculatePayment tasks b = Inr r \<longrightarrow>
            P_final_other r =
              jsRound (foldl (\<lambda>s u. jsAdd s (jsMul (chaptersOf u) (Finite 500))) (Finite 0)
                         (filter (\<lambda>u. taskType u \<noteq> Some ''Lecture'') tasks))
            \<and> totalChaptersCompleted r =
                foldl (\<lambda>s u. jsAdd s (chaptersOf u)) (Finite 0)
                  (filter (\<lambda>u. taskType u \<noteq> Some ''Lecture'') tasks))
         \<and> chaptersOf t = (case chaptersCompleted t of None \<Rightarrow> Finite 0 | Some c \<Rightarrow> Finite c)
         \<and> P_final_other_unrounded (xs @ [t])
             = jsAdd (P_final_other_unrounded xs) (jsMul (chaptersOf t) (Finite 500))
         \<and> totalChaptersCompleted_of (xs @ [t])
             = jsAdd (totalChaptersCompleted_of xs) (chaptersOf t)
         \<and> (taskType l = Some ''Lecture'' \<longrightarrow>
              P_final_other_unrounded (xs @ l # ys) = P_final_other_unrounded (xs @ ys)
              \<and> totalChaptersCompleted_of (xs @ l # ys) = totalChaptersCompleted_of (xs @ ys))
         \<and> calculatePayment (xs @ t\<lparr>chapterName := n, minutes := m, rating := q\<rparr> # ys) b
             = calculatePayment (xs @ t # ys) b
         \<and> (chaptersCompleted t = Some 4 \<longrightarrow>
              (\<exists>r1. calculatePayment [t] b = Inr r1 \<and> P_final_other r1 = Finite 2000
                 \<and> totalChaptersCompleted r1 = Finite 4))
         \<and> (calculatePayment tasks b = Inr r
              \<and> (\<forall>u\<in>set tasks. taskType u \<noteq> Some ''Lecture''
                    \<longrightarrow> chaptersOf u = Finite (of_nat (k u)))
              \<and> 500 * (\<Sum>u\<leftarrow>filter (\<lambda>u. taskType u \<noteq> Some ''Lecture'') tasks. k u) < 2 ^ 53
            \<longrightarrow> P_final_other r
                  = Finite (of_nat
                      (500 * (\<Sum>u\<leftarrow>filter (\<lambda>u. taskType u \<noteq> Some ''Lecture'') tasks. k u)))
                \<and> totalChaptersCompleted r
                  = Finite (of_nat
                      (\<Sum>u\<leftarrow>filter (\<lambda>u. taskType u \<noteq> Some ''Lecture'') tasks. k u)))"
proof -
  let ?t' = "t\<lparr>chapterName := n, minutes := m, rating := q\<rparr>"
  let ?nl = "filter (\<lambda>u. taskType u \<noteq> Some ''Lecture'')"
  have 1: "calculatePayment tasks b = Inr r \<longrightarrow>
            P_final_other r =
              jsRound (foldl (\<lambda>s u. jsAdd s (jsMul (chaptersOf u) (Finite 500))) (Finite 0)
                         (?nl tasks))
            \<and> totalChaptersCompleted r =
                foldl (\<lambda>s u. jsAdd s (chaptersOf u)) (Finite 0) (?nl tasks)"
    by (auto dest!: calculatePayment_Inr
        simp: returned_fields P_final_other_unrounded_foldl totalChaptersCompleted_of_foldl)
  have 2: "P_final_other_unrounded (xs @ [t])
             = jsAdd (P_final_other_unrounded xs) (jsMul (chaptersOf t) (Finite 500))"
    using assms by (simp add: P_final_other_unrounded_foldl)
  have 3: "totalChaptersCompleted_of (xs @ [t])
             = jsAdd (totalChaptersCompleted_of xs) (chaptersOf t)"
    using assms by (simp add: totalChaptersCompleted_of_foldl)
  have 4: "taskType l = Some ''Lecture'' \<longrightarrow>
              P_final_other_unrounded (xs @ l # ys) = P_final_other_unrounded (xs @ ys)
              \<and> totalChaptersCompleted_of (xs @ l # ys) = totalChaptersCompleted_of (xs @ ys)"
    by (simp add: P_final_other_unrounded_foldl totalChaptersCompleted_of_foldl)
  have s: "skipped t" "skipped ?t'"
    using assms by (simp_all add: skipped_def)
  have c: "chaptersOf ?t' = chaptersOf t"
    by (simp add: chaptersOf_def)
  have 5: "calculatePayment (xs @ ?t' # ys) b = calculatePayment (xs @ t # ys) b"
    using assms
    by (intro calculatePayment_cong)
       (simp_all add: lectureTotalsOf_skipped s P_final_other_unrounded_foldl
          totalChaptersCompleted_of_foldl c)
  have 6: "chaptersCompleted t = Some 4 \<longrightarrow>
              (\<exists>r1. calculatePayment [t] b = Inr r1 \<and> P_final_other r1 = Finite 2000
                 \<and> totalChaptersCompleted r1 = Finite 4)"
    using assms s(1)
    by (simp add: calculatePayment_def lectureTotalsOf_def reducer_skipped aggregate_def
        returned_fields P_final_other_unrounded_foldl totalChaptersCompleted_of_foldl
        chaptersOf_field double_eval)
  have 7: "P_final_other r
             = Finite (of_nat (500 * (\<Sum>u\<leftarrow>?nl tasks. k u)))
           \<and> totalChaptersCompleted r = Finite (of_nat (\<Sum>u\<leftarrow>?nl tasks. k u))"
    if e: "calculatePayment tasks b = Inr r"
      and w: "\<forall>u\<in>set tasks. taskType u \<noteq> Some ''Lecture''
                \<longrightarrow> chaptersOf u = Finite (of_nat (k u))"
      and b: "500 * (\<Sum>u\<leftarrow>?nl tasks. k u) < 2 ^ 53"
  proof -
    have u: "\<forall>u\<in>set (?nl tasks). chaptersOf u = Finite (of_nat (k u))"
      using w by simp
    have "foldl (\<lambda>s u. jsAdd s (jsMul (chaptersOf u) (Finite (of_nat 500))))
            (Finite (of_nat 0)) (?nl tasks)
          = Finite (of_nat (0 + 500 * (\<Sum>u\<leftarrow>?nl tasks. k u)))"
      using b by (intro foldl_whole_units [OF u]) simp
    then have p: "P_final_other_unrounded tasks
                    = Finite (of_nat (500 * (\<Sum>u\<leftarrow>?nl tasks. k u)))"
      by (simp add: P_final_other_unrounded_foldl)
    have "foldl (\<lambda>s u. jsAdd s (jsMul (chaptersOf u) (Finite (of_nat 1))))
            (Finite (of_nat 0)) (?nl tasks)
          = Finite (of_nat (0 + 1 * (\<Sum>u\<leftarrow>?nl tasks. k u)))"
      using b by (intro foldl_whole_units [OF u]) simp
    moreover have "jsMul (chaptersOf v) (Finite 1) = chaptersOf v" if "v \<in> set (?nl tasks)" for v
    proof -
      have "k v \<le> (\<Sum>u\<leftarrow>?nl tasks. k u)"
        using that by (simp add: member_le_sum_list)
      with b have "k v < 2 ^ 53" by simp
      with u that show ?thesis by (simp add: roundToDouble_of_nat)
    qed
    then have "foldl (\<lambda>s u. jsAdd s (jsMul (chaptersOf u) (Finite 1))) (Finite 0) (?nl tasks)
               = foldl (\<lambda>s u. jsAdd s (chaptersOf u)) (Finite 0) (?nl tasks)"
      by (intro foldl_cong refl) simp
    ultimately have c: "totalChaptersCompleted_of tasks
                          = Finite (of_nat (\<Sum>u\<leftarrow>?nl tasks. k u))"
      by (simp add: totalChaptersCompleted_of_foldl)
    from calculatePayment_Inr [OF e] obtain tot where "r = returned tot b tasks" by blast
    with p c show ?thesis
      by (simp add: returned_fields del: of_nat_mult of_nat_numeral)
  qed
  from 1 2 3 4 5 6 7 chaptersOf_field show ?thesis by blast
qed

theorem other_work_linear_witness:
  "\<exists>r. calculatePayment
          [\<lparr>taskType = Some ''Content'', chapterName = Some ''Ch1'', minutes = Some 999,
            rating = Some 1, chaptersCompleted = Some 4\<rparr>] (Some 10) = Inr r
       \<and> P_final_other r = Finite 2000 \<and> totalChaptersCompleted r = Finite 4"
proof -
  let ?t = "\<lparr>taskType = Some ''Content'', chapterName = Some ''Ch1'', minutes = Some 999,
            rating = Some 1, chaptersCompleted = Some 4\<rparr>"
  have "taskType ?t \<noteq> Some ''Lecture''" by simp
  from other_work_linear [OF this, where b = "Some 10"]
  have "chaptersCompleted ?t = Some 4 \<longrightarrow>
          (\<exists>r1. calculatePayment [?t] (Some 10) = Inr r1 \<and> P_final_other r1 = Finite 2000
             \<and> totalChaptersCompleted r1 = Finite 4)"
    by blast
  then show ?thesis by simp
qed

section \<open>One pay component per record\<close>

text \<open>
  C10. A Lecture record that line 38 excludes (minutes missing, zero or negative,
  chapter name missing or empty) contributes to nothing: removing it from the list
  leaves the whole result unchanged, whatever its \<open>chaptersCompleted\<close>. The other pay and
  the total of completed chapters are sums over the records that are not lectures, and
  the lecture totals are those of the Lecture records alone.
\<close>

theorem one_component_per_record:
  assumes "taskType t = Some ''Lecture''"
    and "minutes t = None \<or> (\<exists>x. minutes t = Some x \<and> x \<le> 0)
         \<or> chapterName t = None \<or> chapterName t = Some []"
  shows "calculatePayment (xs @ t # ys) b = calculatePayment (xs @ ys) b
         \<and> P_final_other_unrounded (xs @ t # ys) = P_final_other_unrounded (xs @ ys)
         \<and> totalChaptersCompleted_of (xs @ t # ys) = totalChaptersCompleted_of (xs @ ys)
         \<and> lectureTotalsOf (xs @ t # ys) = lectureTotalsOf (xs @ ys)
         \<and> P_final_other_unrounded tasks
             = foldl (\<lambda>s u. jsAdd s (jsMul (chaptersOf u) (Finite 500))) (Finite 0)
                 (filter (\<lambda>u. taskType u \<noteq> Some ''Lecture'') tasks)
         \<and> totalChaptersCompleted_of tasks
             = foldl (\<lambda>s u. jsAdd s (chaptersOf u)) (Finite 0)
                 (filter (\<lambda>u. taskType u \<noteq> Some ''Lecture'') tasks)
         \<and> lectureTotalsOf tasks
             = lectureTotalsOf (filter (\<lambda>u. taskType u = Some ''Lecture'') tasks)"
proof -
  have s: "skipped t"
    using assms(2)
    by (auto simp: skipped_def truthyNumber_def truthyString_def numberOf_def)
  have 1: "lectureTotalsOf (xs @ t # ys) = lectureTotalsOf (xs @ ys)"
    by (rule lectureTotalsOf_skipped [OF s])
  have 2: "P_final_other_unrounded (xs @ t # ys) = P_final_other_unrounded (xs @ ys)"
    using assms(1) by (simp add: P_final_other_unrounded_foldl)
  have 3: "totalChaptersCompleted_of (xs @ t # ys) = totalChaptersCompleted_of (xs @ ys)"
    using assms(1) by (simp add: totalChaptersCompleted_of_foldl)
  have 4: "calculatePayment (xs @ t # ys) b = calculatePayment (xs @ ys) b"
    by (rule calculatePayment_cong [OF 1 2 3])
  have 5: "lectureTotalsOf tasks
             = lectureTotalsOf (filter (\<lambda>u. taskType u = Some ''Lecture'') tasks)"
    by (simp add: lectureTotalsOf_def reduce_filter not_lecture_skipped)
  from 1 2 3 4 5 show ?thesis
    by (simp add: P_final_other_unrounded_foldl totalChaptersCompleted_of_foldl)
qed

theorem one_component_per_record_witness:
  "calculatePayment
     [lecture ''Ch1'' 60 (Some 4),
      \<lparr>taskType = Some ''Lecture'', chapterName = Some ''Ch1'', minutes = Some 0,
       rating = Some 5, chaptersCompleted = Some 7\<rparr>,
      otherTask ''Content'' 2] (Some 10)
   = calculatePayment [lecture ''Ch1'' 60 (Some 4), otherTask ''Content'' 2] (Some 10)
   \<and> (\<exists>r. calculatePayment
          [lecture ''Ch1'' 60 (Some 4),
           \<lparr>taskType = Some ''Lecture'', chapterName = Some ''Ch1'', minutes = Some 0,
            rating = Some 5, chaptersCompleted = Some 7\<rparr>,
           otherTask ''Content'' 2] (Some 10) = Inr r
        \<and> P_final_other r = Finite 1000 \<and> totalChaptersCompleted r = Finite 2
        \<and> T_billable r = Finite 60)"
proof -
  let ?t = "\<lparr>taskType = Some ''Lecture'', chapterName = Some ''Ch1'', minutes = Some 0,
            rating = Some 5, chaptersCompleted = Some 7\<rparr>"
  have a: "taskType ?t = Some ''Lecture''" by simp
  have b: "minutes ?t = None \<or> (\<exists>x. minutes ?t = Some x \<and> x \<le> 0)
         \<or> chapterName ?t = None \<or> chapterName ?t = Some []"
    by simp
  from one_component_per_record [OF a b, of "[lecture ''Ch1'' 60 (Some 4)]" "[otherTask ''Content'' 2]" "Some 10"]
  have e: "calculatePayment ([lecture ''Ch1'' 60 (Some 4)] @ ?t # [otherTask ''Content'' 2]) (Some 10)
        = calculatePayment ([lecture ''Ch1'' 60 (Some 4)] @ [otherTask ''Content'' 2]) (Some 10)"
    by blast
  have "\<exists>r. calculatePayment [lecture ''Ch1'' 60 (Some 4), otherTask ''Content'' 2] (Some 10) = Inr r
        \<and> P_final_other r = Finite 1000 \<and> totalChaptersCompleted r = Finite 2
        \<and> T_billable r = Finite 60"
    by (simp add: model_defs double_eval)
  with e show ?thesis by simp
qed

section \<open>Grouping on ordinary chapter names\<close>

text \<open>
  A billable record is one the reducer does not pass over. When no billable record
  names a chapter after a property that \<^verbatim>\<open>{}\<close> inherits, the reduction never throws,
  the own properties of the accumulator are the chapter names in the order of their
  first record, each with the group of its members, and the two sums of the loop are
  those of the specification.
\<close>

lemma billable_iff: "billable t \<longleftrightarrow> \<not> skipped t"
  by (cases "chapterName t"; cases "minutes t")
     (auto simp: billable_def skipped_def truthyString_def truthyNumber_def numberOf_def
        stringOf_def)

lemma chapterNames_snoc_skipped: "skipped t \<Longrightarrow> chapterNames (xs @ [t]) = chapterNames xs"
  by (simp add: chapterNames_def billable_iff)

lemma chapterMembers_snoc_skipped:
  "skipped t \<Longrightarrow> chapterMembers (xs @ [t]) c = chapterMembers xs c"
  by (simp add: chapterMembers_def billable_iff)

lemma chapterNames_snoc:
  "billable t \<Longrightarrow>
     chapterNames (xs @ [t]) =
       (if stringOf (chapterName t) \<in> set (chapterNames xs) then chapterNames xs
        else chapterNames xs @ [stringOf (chapterName t)])"
  by (simp add: chapterNames_def)

lemma distinct_chapterNames: "distinct (chapterNames tasks)"
  by (simp add: chapterNames_def)

lemma groupOf_snoc:
  "billable t \<Longrightarrow>
     groupOf (xs @ [t]) c =
       (if c = stringOf (chapterName t) then addToGroup t (groupOf xs c) else groupOf xs c)"
  by (auto simp: groupOf_def chapterMembers_def)

lemma groupOf_snoc_skipped: "skipped t \<Longrightarrow> groupOf (xs @ [t]) c = groupOf xs c"
  by (simp add: groupOf_def chapterMembers_snoc_skipped)

lemma groupOf_absent: "c \<notin> set (chapterNames xs) \<Longrightarrow> groupOf xs c = newGroup"
proof -
  assume "c \<notin> set (chapterNames xs)"
  then have "chapterMembers xs c = []"
    by (auto simp: chapterNames_def chapterMembers_def filter_empty_conv)
  then show ?thesis by (simp add: groupOf_def)
qed

lemma reducer_ordinary:
  assumes "billable t" and "stringOf (chapterName t) \<notin> set inheritedNames"
  shows "reducer (acc, p) t =
           Inr (AList.update (stringOf (chapterName t))
                  (addToGroup t (case map_of acc (stringOf (chapterName t)) of
                                   None \<Rightarrow> newGroup | Some g \<Rightarrow> g)) acc, p)"
  using assms
  by (auto simp: reducer_def billable_iff inheritedNames_def split: option.splits)

lemma reduce_snoc:
  "reduce s (xs @ [t]) = (case reduce s xs of Inl e \<Rightarrow> Inl e | Inr s' \<Rightarrow> reducer s' t)"
  by (simp add: reduce_append split: sum.splits)

lemma reduce_ordinary:
  assumes "\<forall>t\<in>set tasks. billable t \<longrightarrow> stringOf (chapterName t) \<notin> set inheritedNames"
  shows "\<exists>acc. reduce ([], False) tasks = Inr (acc, False)
           \<and> map fst acc = chapterNames tasks
           \<and> map_of acc = (\<lambda>c. if c \<in> set (chapterNames tasks)
                                 then Some (groupOf tasks c) else None)"
  using assms
proof (induction tasks rule: rev_induct)
  case Nil
  show ?case by (simp add: chapterNames_def)
next
  case (snoc t xs)
  then obtain acc where r: "reduce ([], False) xs = Inr (acc, False)"
    and k: "map fst acc = chapterNames xs"
    and m: "map_of acc = (\<lambda>c. if c \<in> set (chapterNames xs) then Some (groupOf xs c) else None)"
    by auto
  show ?case
  proof (cases "skipped t")
    case True
    then have "reduce ([], False) (xs @ [t]) = Inr (acc, False)"
      by (simp add: reduce_snoc r reducer_skipped)
    moreover from True
    have "map_of acc = (\<lambda>c. if c \<in> set (chapterNames (xs @ [t]))
                            then Some (groupOf (xs @ [t]) c) else None)"
      by (simp add: m fun_eq_iff chapterNames_snoc_skipped groupOf_snoc_skipped)
    moreover from True have "map fst acc = chapterNames (xs @ [t])"
      by (simp add: k chapterNames_snoc_skipped)
    ultimately show ?thesis by blast
  next
    case False
    then have b: "billable t" by (simp add: billable_iff)
    with snoc.prems have o: "stringOf (chapterName t) \<notin> set inheritedNames" by simp
    let ?k = "stringOf (chapterName t)"
    let ?acc = "AList.update ?k (addToGroup t (groupOf xs ?k)) acc"
    have g: "(case map_of acc ?k of None \<Rightarrow> newGroup | Some g \<Rightarrow> g) = groupOf xs ?k"
      by (simp add: m groupOf_absent)
    have "reduce ([], False) (xs @ [t]) = Inr (?acc, False)"
      by (simp add: reduce_snoc r reducer_ordinary [OF b o] g)
    moreover have "map fst ?acc = chapterNames (xs @ [t])"
      by (simp add: update_keys k chapterNames_snoc [OF b])
    moreover have "map_of ?acc = (\<lambda>c. if c \<in> set (chapterNames (xs @ [t]))
                                 then Some (groupOf (xs @ [t]) c) else None)"
      by (auto simp: update_conv' m chapterNames_snoc [OF b] groupOf_snoc [OF b] fun_eq_iff)
    ultimately show ?thesis by blast
  qed
qed

lemma set_forInKeys: "set (forInKeys names) = set names"
  by (auto simp: forInKeys_def)

lemma sum_list_insort_key:
  fixes g :: "'a \<Rightarrow> nat"
  shows "(\<Sum>x\<leftarrow>insort_key f a xs. g x) = g a + (\<Sum>x\<leftarrow>xs. g x)"
  by (induction xs) simp_all

lemma sum_list_sort_key:
  fixes g :: "'a \<Rightarrow> nat"
  shows "(\<Sum>x\<leftarrow>sort_key f xs. g x) = (\<Sum>x\<leftarrow>xs. g x)"
  by (induction xs) (simp_all add: sum_list_insort_key)

lemma sum_list_filter_split:
  fixes g :: "'a \<Rightarrow> nat"
  shows "(\<Sum>x\<leftarrow>filter P xs. g x) + (\<Sum>x\<leftarrow>filter (\<lambda>x. \<not> P x) xs. g x) = (\<Sum>x\<leftarrow>xs. g x)"
  by (induction xs) simp_all

lemma sum_list_forInKeys:
  fixes g :: "string \<Rightarrow> nat"
  shows "(\<Sum>k\<leftarrow>forInKeys names. g k) = (\<Sum>k\<leftarrow>names. g k)"
  using sum_list_filter_split [where P = "\<lambda>k. arrayIndex k \<noteq> None" and xs = names and g = g]
  by (simp add: forInKeys_def sum_list_sort_key)

lemma forIn_groups:
  assumes "\<forall>k\<in>set ks. map_of acc k = Some (G k)"
  shows "lectureBillableMinutes (forIn acc tot ks)
           = foldl (\<lambda>s c. jsAdd s (jsMin (totalMinutes (G c)) (Finite 240)))
               (lectureBillableMinutes tot) ks
         \<and> lecturesCounted (forIn acc tot ks)
           = lecturesCounted tot + (\<Sum>k\<leftarrow>ks. lectureCount (G k))"
  using assms
  by (induction ks arbitrary: tot) (simp_all add: addChapter_def)

lemma totalMinutes_fold:
  "totalMinutes (foldl (\<lambda>g t. addToGroup t g) g0 ts)
     = foldl (\<lambda>s t. jsAdd s (Finite (numberOf (minutes t)))) (totalMinutes g0) ts"
  by (induction ts arbitrary: g0) (simp_all add: addToGroup_def)

lemma lectureCount_fold:
  "lectureCount (foldl (\<lambda>g t. addToGroup t g) g0 ts) = lectureCount g0 + length ts"
  by (induction ts arbitrary: g0) (simp_all add: addToGroup_def)

lemma grouping_on_ordinary_names:
  assumes "\<forall>t\<in>set tasks. billable t \<longrightarrow> stringOf (chapterName t) \<notin> set inheritedNames"
  shows "\<exists>r. calculatePayment tasks b = Inr r \<and> T_billable r = T_billable_spec tasks
           \<and> lecturesCount r = lecturesCount_spec tasks"
proof -
  from reduce_ordinary [OF assms] obtain acc
    where r: "reduce ([], False) tasks = Inr (acc, False)"
      and k: "map fst acc = chapterNames tasks"
      and m: "map_of acc = (\<lambda>c. if c \<in> set (chapterNames tasks)
                                 then Some (groupOf tasks c) else None)"
    by blast
  let ?ks = "forInKeys (chapterNames tasks)"
  have t: "lectureTotalsOf tasks = Inr (forIn acc zeroTotals ?ks)"
    by (simp add: lectureTotalsOf_def r aggregate_def k)
  have "\<forall>c\<in>set ?ks. map_of acc c = Some (groupOf tasks c)"
    by (simp add: m set_forInKeys)
  from forIn_groups [OF this, of zeroTotals]
  have T: "lectureBillableMinutes (forIn acc zeroTotals ?ks) = T_billable_spec tasks"
    and n: "lecturesCounted (forIn acc zeroTotals ?ks) = lecturesCount_spec tasks"
    by (simp_all add: zeroTotals_def T_billable_spec_def lecturesCount_spec_def groupMinutes_def
        groupOf_def totalMinutes_fold lectureCount_fold newGroup_def sum_list_forInKeys)
  then show ?thesis
    by (simp add: calculatePayment_def t returned_fields)
qed

section \<open>Billable minutes and lecture count\<close>

text \<open>
  C3. The claim is that for every list \<open>T_billable\<close> is the sum over the chapter
  groups of the capped minutes and \<open>lecturesCount\<close> the number of grouped records. The
  code departs from it on a chapter named after an inherited property: for the single
  Lecture record of chapter \<^verbatim>\<open>toString\<close> with 100 minutes and no rating, line 41 finds
  the inherited function, no group is created, and the function returns
  \<open>T_billable = 0\<close> and \<open>lecturesCount = 0\<close>, where the sums of the claim are 100 and 1.
\<close>

theorem inherited_chapter_name_not_grouped:
  "\<exists>r. calculatePayment [lecture ''toString'' 100 None] b = Inr r
       \<and> T_billable r = Finite 0 \<and> lecturesCount r = 0
       \<and> T_billable_spec [lecture ''toString'' 100 None] = Finite 100
       \<and> lecturesCount_spec [lecture ''toString'' 100 None] = 1"
  by (simp add: model_defs double_eval T_billable_spec_def lecturesCount_spec_def
      chapterNames_def chapterMembers_def groupMinutes_def billable_def)

theorem inherited_chapter_name_not_grouped_witness:
  "\<exists>r. calculatePayment [lecture ''toString'' 100 None] (Some 10) = Inr r
       \<and> T_billable r = Finite 0 \<and> lecturesCount r = 0
       \<and> T_billable_spec [lecture ''toString'' 100 None] = Finite 100
       \<and> lecturesCount_spec [lecture ''toString'' 100 None] = 1"
  by (rule inherited_chapter_name_not_grouped)

text \<open>
  The example of the claim holds: 200 and 100 minutes in one chapter are billed as 240.
\<close>

lemma same_chapter_cap_example:
  assumes "c \<noteq> []" and "c \<notin> set inheritedNames"
  shows "\<exists>r. calculatePayment [lecture c 200 q1, lecture c 100 q2] b = Inr r
           \<and> T_billable r = Finite 240 \<and> lecturesCount r = 2"
proof -
  let ?ts = "[lecture c 200 q1, lecture c 100 q2]"
  have "\<forall>t\<in>set ?ts. billable t \<longrightarrow> stringOf (chapterName t) \<notin> set inheritedNames"
    using assms(2) by (simp add: lecture_def stringOf_def)
  from grouping_on_ordinary_names [OF this, of b] obtain r
    where r: "calculatePayment ?ts b = Inr r" "T_billable r = T_billable_spec ?ts"
      "lecturesCount r = lecturesCount_spec ?ts"
    by blast
  have n: "chapterNames ?ts = [c]" "forInKeys [c] = [c]"
    using assms(1)
    by (simp_all add: chapterNames_def billable_def lecture_def numberOf_def stringOf_def
        forInKeys_def)
  have m: "chapterMembers ?ts c = ?ts"
    using assms(1)
    by (simp add: chapterMembers_def billable_def lecture_def numberOf_def stringOf_def)
  have "groupMinutes ?ts c = Finite 300"
    by (simp add: groupMinutes_def m) (simp add: lecture_def numberOf_def double_eval)
  then have "T_billable_spec ?ts = Finite 240"
    by (simp add: T_billable_spec_def n double_eval)
  moreover have "lecturesCount_spec ?ts = 2"
    by (simp add: lecturesCount_spec_def n m)
  ultimately show ?thesis using r by simp
qed

section \<open>Errors\<close>

text \<open>
  C8. The claim is that the function never raises. It raises a \<^verbatim>\<open>TypeError\<close> for a
  Lecture record of chapter \<^verbatim>\<open>constructor\<close> with 60 minutes and rating 5 (line 46 calls
  \<^verbatim>\<open>push\<close> on \<^verbatim>\<open>undefined\<close>), and for a Lecture record of chapter \<^verbatim>\<open>__proto__\<close> with
  60 minutes and no rating (line 57 calls \<^verbatim>\<open>reduce\<close> on \<^verbatim>\<open>undefined\<close>).
\<close>

theorem inherited_chapter_name_throws:
  "calculatePayment [lecture ''constructor'' 60 (Some 5)] b = Inl TypeError
   \<and> calculatePayment [lecture ''__proto__'' 60 None] b = Inl TypeError"
  by (simp add: model_defs)

theorem inherited_chapter_name_throws_witness:
  "calculatePayment [lecture ''constructor'' 60 (Some 5)] (Some 10) = Inl TypeError
   \<and> calculatePayment [lecture ''__proto__'' 60 None] (Some 10) = Inl TypeError"
  by (rule inherited_chapter_name_throws)

end
